theory Spec2Isabelle
  imports Complex_Main
begin

section \<open>Python and numpy values\<close>

text \<open>
  The module \<^verbatim>\<open>gabor_functions.py\<close> is Python 3 over numpy (a release that still has
  \<^verbatim>\<open>np.float\<close> and \<^verbatim>\<open>ndarray.itemset\<close>): \<^verbatim>\<open>/\<close> is true division, also between
  integers. Python floats are read as real numbers (rounding, overflow and the sign of
  zero are left out), Python integers as \<open>int\<close>; the scalar arguments of the functions
  (\<open>sigma\<close>, \<open>f0\<close>, \<open>cutoff\<close> and so on) are Python numbers. The keyword argument
  \<^verbatim>\<open>ktype\<close> is taken at its default, numpy's double.

  Every exception the code can raise is a value of \<open>error\<close>, and a function that can
  raise returns \<open>error + 'a\<close> with \<open>Inl\<close> the exception. \<open>Exception msg\<close> is the
  \<^verbatim>\<open>raise Exception(msg)\<close> of the module; the other three are raised by Python and
  numpy themselves and are subclasses of \<^verbatim>\<open>Exception\<close>.
\<close>

datatype error =
    Exception string
  | ZeroDivisionError
  | IndexError
  | ValueError

text \<open>
  \<^verbatim>\<open>a / b\<close> on Python scalars: a zero divisor raises \<^verbatim>\<open>ZeroDivisionError\<close>.
\<close>

definition py_truediv :: "real \<Rightarrow> real \<Rightarrow> error + real" where
  "py_truediv a b = (if b = 0 then Inl ZeroDivisionError else Inr (a / b))"

text \<open>\<^verbatim>\<open>int(x)\<close> on a float truncates towards zero.\<close>

definition py_int :: "real \<Rightarrow> int" where
  "py_int x = (if 0 \<le> x then \<lfloor>x\<rfloor> else \<lceil>x\<rceil>)"

text \<open>\<^verbatim>\<open>range(n)\<close>: the integers from 0 below \<open>n\<close>, none when \<open>n \<le> 0\<close>.\<close>

definition py_range :: "int \<Rightarrow> int list" where
  "py_range n = map int [0..<nat n]"

text \<open>
  A \<^verbatim>\<open>for\<close> loop over a list of indices whose body updates the state \<open>s\<close> or raises;
  the first exception ends the loop.
\<close>

fun for_each :: "'i list \<Rightarrow> ('i \<Rightarrow> 's \<Rightarrow> error + 's) \<Rightarrow> 's \<Rightarrow> error + 's" where
  "for_each [] body s = Inr s"
| "for_each (i # rest) body s =
     (case body i s of Inl e \<Rightarrow> Inl e | Inr s' \<Rightarrow> for_each rest body s')"

subsection \<open>numpy floating-point values\<close>

text \<open>
  Arithmetic on numpy arrays and numpy scalars never raises: a division by zero, a
  logarithm of zero or an undefined operation gives an infinity or a NaN (and a
  warning). An element of a numpy array is therefore a finite real, one of the two
  infinities, or NaN, and each numpy operation below follows IEEE 754 on the special
  values; on finite values it is the exact real operation.
\<close>

datatype npfloat = Fin real | PInf | NInf | NaN

fun np_neg :: "npfloat \<Rightarrow> npfloat" where
  "np_neg (Fin a) = Fin (- a)"
| "np_neg PInf = NInf"
| "np_neg NInf = PInf"
| "np_neg NaN = NaN"

fun np_abs :: "npfloat \<Rightarrow> npfloat" where
  "np_abs (Fin a) = Fin \<bar>a\<bar>"
| "np_abs PInf = PInf"
| "np_abs NInf = PInf"
| "np_abs NaN = NaN"

fun np_add :: "npfloat \<Rightarrow> npfloat \<Rightarrow> npfloat" where
  "np_add (Fin a) (Fin b) = Fin (a + b)"
| "np_add NaN _ = NaN"
| "np_add _ NaN = NaN"
| "np_add PInf NInf = NaN"
| "np_add NInf PInf = NaN"
| "np_add PInf _ = PInf"
| "np_add _ PInf = PInf"
| "np_add NInf _ = NInf"
| "np_add _ NInf = NInf"

definition np_sub :: "npfloat \<Rightarrow> npfloat \<Rightarrow> npfloat" where
  "np_sub a b = np_add a (np_neg b)"

fun np_mul :: "npfloat \<Rightarrow> npfloat \<Rightarrow> npfloat" where
  "np_mul (Fin a) (Fin b) = Fin (a * b)"
| "np_mul NaN _ = NaN"
| "np_mul _ NaN = NaN"
| "np_mul (Fin a) PInf = (if 0 < a then PInf else if a < 0 then NInf else NaN)"
| "np_mul (Fin a) NInf = (if 0 < a then NInf else if a < 0 then PInf else NaN)"
| "np_mul PInf (Fin b) = (if 0 < b then PInf else if b < 0 then NInf else NaN)"
| "np_mul NInf (Fin b) = (if 0 < b then NInf else if b < 0 then PInf else NaN)"
| "np_mul PInf PInf = PInf"
| "np_mul PInf NInf = NInf"
| "np_mul NInf PInf = NInf"
| "np_mul NInf NInf = PInf"

text \<open>
  \<^verbatim>\<open>a / b\<close> where an operand is a numpy value: a finite non-zero value over zero is an
  infinity of the dividend's sign (the reals have one zero, read as the positive zero
  of the floats), zero over zero is NaN.
\<close>

fun np_div :: "npfloat \<Rightarrow> npfloat \<Rightarrow> npfloat" where
  "np_div (Fin a) (Fin b) =
     (if b \<noteq> 0 then Fin (a / b)
      else if 0 < a then PInf else if a < 0 then NInf else NaN)"
| "np_div NaN _ = NaN"
| "np_div _ NaN = NaN"
| "np_div (Fin a) _ = Fin 0"
| "np_div PInf (Fin b) = (if 0 \<le> b then PInf else NInf)"
| "np_div NInf (Fin b) = (if 0 \<le> b then NInf else PInf)"
| "np_div _ _ = NaN"

text \<open>\<^verbatim>\<open>a ** k\<close> for an integer exponent \<open>k \<ge> 0\<close> (the module uses 2 and \<open>2 * n\<close>).\<close>

fun np_power :: "npfloat \<Rightarrow> nat \<Rightarrow> npfloat" where
  "np_power a 0 = Fin 1"
| "np_power (Fin a) k = Fin (a ^ k)"
| "np_power PInf k = PInf"
| "np_power NInf k = (if even k then PInf else NInf)"
| "np_power NaN k = NaN"

fun np_log :: "npfloat \<Rightarrow> npfloat" where
  "np_log (Fin a) = (if 0 < a then Fin (ln a) else if a = 0 then NInf else NaN)"
| "np_log PInf = PInf"
| "np_log NInf = NaN"
| "np_log NaN = NaN"

fun np_exp :: "npfloat \<Rightarrow> npfloat" where
  "np_exp (Fin a) = Fin (exp a)"
| "np_exp PInf = PInf"
| "np_exp NInf = Fin 0"
| "np_exp NaN = NaN"

fun np_sin :: "npfloat \<Rightarrow> npfloat" where
  "np_sin (Fin a) = Fin (sin a)"
| "np_sin _ = NaN"

fun np_cos :: "npfloat \<Rightarrow> npfloat" where
  "np_cos (Fin a) = Fin (cos a)"
| "np_cos _ = NaN"

fun np_hypot :: "npfloat \<Rightarrow> npfloat \<Rightarrow> npfloat" where
  "np_hypot (Fin a) (Fin b) = Fin (sqrt (a ^ 2 + b ^ 2))"
| "np_hypot PInf _ = PInf"
| "np_hypot NInf _ = PInf"
| "np_hypot _ PInf = PInf"
| "np_hypot _ NInf = PInf"
| "np_hypot _ _ = NaN"

text \<open>The angle of the point \<open>(x, y)\<close> in \<open>(-\<pi>, \<pi>]\<close>, and \<^verbatim>\<open>np.arctan2(y, x)\<close>.\<close>

definition arctan2 :: "real \<Rightarrow> real \<Rightarrow> real" where
  "arctan2 y x =
     (if 0 < x then arctan (y / x)
      else if x < 0 then (if 0 \<le> y then arctan (y / x) + pi else arctan (y / x) - pi)
      else if 0 < y then pi / 2 else if y < 0 then - pi / 2 else 0)"

fun np_arctan2 :: "npfloat \<Rightarrow> npfloat \<Rightarrow> npfloat" where
  "np_arctan2 (Fin y) (Fin x) = Fin (arctan2 y x)"
| "np_arctan2 NaN _ = NaN"
| "np_arctan2 _ NaN = NaN"
| "np_arctan2 (Fin y) PInf = Fin 0"
| "np_arctan2 (Fin y) NInf = Fin (if 0 \<le> y then pi else - pi)"
| "np_arctan2 PInf (Fin x) = Fin (pi / 2)"
| "np_arctan2 NInf (Fin x) = Fin (- pi / 2)"
| "np_arctan2 PInf PInf = Fin (pi / 4)"
| "np_arctan2 PInf NInf = Fin (3 * pi / 4)"
| "np_arctan2 NInf PInf = Fin (- pi / 4)"
| "np_arctan2 NInf NInf = Fin (- 3 * pi / 4)"

text \<open>A value that is finite or NaN (not an infinity).\<close>

definition fin_or_nan :: "npfloat \<Rightarrow> bool" where
  "fin_or_nan v = (case v of Fin a \<Rightarrow> True | NaN \<Rightarrow> True | _ \<Rightarrow> False)"

subsection \<open>Two-dimensional arrays\<close>

text \<open>
  A two-dimensional numpy array is the list of its rows. \<^verbatim>\<open>np.zeros((h, w))\<close> raises
  \<^verbatim>\<open>ValueError\<close> on a negative dimension.
\<close>

definition np_zeros :: "int \<Rightarrow> int \<Rightarrow> error + real list list" where
  "np_zeros h w =
     (if h < 0 \<or> w < 0 then Inl ValueError
      else Inr (replicate (nat h) (replicate (nat w) 0)))"

text \<open>
  An index into an axis of length \<open>n\<close>: numpy counts a negative index from the end and
  raises \<^verbatim>\<open>IndexError\<close> outside \<open>[-n, n)\<close>.
\<close>

definition adjust_index :: "nat \<Rightarrow> int \<Rightarrow> error + nat" where
  "adjust_index n i =
     (if 0 \<le> i \<and> i < int n then Inr (nat i)
      else if - int n \<le> i \<and> i < 0 then Inr (nat (i + int n))
      else Inl IndexError)"

text \<open>\<^verbatim>\<open>a.itemset(i, j, v)\<close>: the array with cell \<open>(i, j)\<close> overwritten.\<close>

definition itemset :: "'a list list \<Rightarrow> int \<Rightarrow> int \<Rightarrow> 'a \<Rightarrow> error + 'a list list" where
  "itemset a i j v =
     (case adjust_index (length a) i of
        Inl e \<Rightarrow> Inl e
      | Inr i' \<Rightarrow>
          (case adjust_index (length (a ! i')) j of
             Inl e \<Rightarrow> Inl e
           | Inr j' \<Rightarrow> Inr (a[i' := (a ! i')[j' := v]])))"

text \<open>
  \<^verbatim>\<open>np.arange(start, stop, dtype=float)\<close> with step 1: the values \<open>start + k\<close> for
  \<open>0 \<le> k < \<lceil>stop - start\<rceil>\<close>.
\<close>

definition np_arange :: "real \<Rightarrow> real \<Rightarrow> npfloat list" where
  "np_arange start stop = map (\<lambda>k. Fin (start + real k)) [0..<nat \<lceil>stop - start\<rceil>]"

text \<open>
  \<^verbatim>\<open>np.meshgrid(a, b)\<close>: two arrays of \<open>length b\<close> rows and \<open>length a\<close> columns,
  the first repeating \<open>a\<close> along the rows, the second \<open>b\<close> along the columns.
\<close>

definition np_meshgrid :: "'a list \<Rightarrow> 'a list \<Rightarrow> 'a list list \<times> 'a list list" where
  "np_meshgrid a b = (replicate (length b) a, map (\<lambda>v. replicate (length a) v) b)"

text \<open>
  An operation applied to every cell of an array, and to the cells of two arrays
  pairwise (the two operands have one shape wherever the module does this).
\<close>

definition map2d :: "('a \<Rightarrow> 'b) \<Rightarrow> 'a list list \<Rightarrow> 'b list list" where
  "map2d f a = map (map f) a"

definition zip2d :: "('a \<Rightarrow> 'b \<Rightarrow> 'c) \<Rightarrow> 'a list list \<Rightarrow> 'b list list \<Rightarrow> 'c list list" where
  "zip2d f a b = map2 (map2 f) a b"

text \<open>
  An array has the shape \<open>h \<times> w\<close>: \<open>h\<close> rows of \<open>w\<close> cells each.
\<close>

definition has_shape :: "nat \<Rightarrow> nat \<Rightarrow> 'a list list \<Rightarrow> bool" where
  "has_shape h w a = (length a = h \<and> (\<forall>r\<in>set a. length r = w))"

section \<open>\<^verbatim>\<open>get_gabor_kernel\<close>\<close>

text \<open>
  The three constants are computed with Python's scalar division, which raises on a
  zero divisor; the loop itself only multiplies, adds and applies \<^verbatim>\<open>np.exp\<close> and
  \<^verbatim>\<open>np.cos\<close>, so every cell of the kernel is a finite real.

  The body of the two nested loops (source lines 41 to 52): the centred offsets, the
  rotation, the Gabor equation and the store into the kernel (\<open>kern\<close>: the name
  \<open>kernel\<close> is a constant of the library).
\<close>

definition gabor_cell ::
  "real \<Rightarrow> real \<Rightarrow> int \<Rightarrow> int \<Rightarrow> real \<Rightarrow> real \<Rightarrow> real \<Rightarrow> real \<Rightarrow>
   int \<Rightarrow> int \<Rightarrow> real list list \<Rightarrow> error + real list list" where
  "gabor_cell costheta sintheta half_width half_height const_x const_y const_scale psi i j kern =
     (let y = real_of_int (i - half_height);
          x = real_of_int (j - half_width);
          xr = x * costheta + y * sintheta;
          yr = - x * sintheta + y * costheta;
          val = exp (const_x * xr * xr + const_y * yr * yr) * cos (const_scale * xr + psi)
      in itemset kern i j val)"

definition get_gabor_kernel ::
  "int \<times> int \<Rightarrow> real \<Rightarrow> real \<Rightarrow> real \<Rightarrow> real \<Rightarrow> real \<Rightarrow> error + real list list" where
  "get_gabor_kernel ksize sigma theta lambd gamma psi =
     (let costheta = cos theta;
          sintheta = sin theta;
          (width, height) = ksize;
          half_width = py_int (real_of_int width / 2);
          half_height = py_int (real_of_int height / 2)
      in case np_zeros height width of
           Inl e \<Rightarrow> Inl e
         | Inr kern \<Rightarrow>
       (case py_truediv (- 0.5) (sigma ^ 2) of
           Inl e \<Rightarrow> Inl e
         | Inr const_x \<Rightarrow>
       (case py_truediv sigma gamma of
           Inl e \<Rightarrow> Inl e
         | Inr sigma_gamma \<Rightarrow>
       (case py_truediv (- 0.5) (sigma_gamma ^ 2) of
           Inl e \<Rightarrow> Inl e
         | Inr const_y \<Rightarrow>
       (case py_truediv (pi * 2.0) lambd of
           Inl e \<Rightarrow> Inl e
         | Inr const_scale \<Rightarrow>
             for_each (py_range height)
               (\<lambda>i. for_each (py_range width)
                  (gabor_cell costheta sintheta half_width half_height
                     const_x const_y const_scale psi i))
               kern)))))"

text \<open>
  The value the specification gives for cell \<open>(i, j)\<close> of the kernel of size
  \<open>width \<times> height\<close>, in the specification's words.
\<close>

definition gabor_formula ::
  "int \<Rightarrow> int \<Rightarrow> real \<Rightarrow> real \<Rightarrow> real \<Rightarrow> real \<Rightarrow> real \<Rightarrow> int \<Rightarrow> int \<Rightarrow> real" where
  "gabor_formula width height sigma theta lambd gamma psi i j =
     (let y = real_of_int (i - \<lfloor>real_of_int height / 2\<rfloor>);
          x = real_of_int (j - \<lfloor>real_of_int width / 2\<rfloor>);
          xr = x * cos theta + y * sin theta;
          yr = - x * sin theta + y * cos theta
      in exp (- 0.5 * xr\<^sup>2 / sigma\<^sup>2 - 0.5 * yr\<^sup>2 / (sigma / gamma)\<^sup>2)
           * cos ((2 * pi / lambd) * xr + psi))"

section \<open>\<^verbatim>\<open>_low_pass_filter\<close>\<close>

text \<open>
  The coordinate grids of \<^verbatim>\<open>_low_pass_filter\<close> (source lines 156 to 158): the columns
  divided by \<open>cols\<close>, the rows by \<open>rows\<close>.
\<close>

definition lp_meshgrid :: "int \<times> int \<Rightarrow> npfloat list list \<times> npfloat list list" where
  "lp_meshgrid fsize =
     (let (cols, rows) = fsize;
          array_cols = np_arange (- real_of_int cols / 2) (real_of_int cols / 2);
          array_rows = np_arange (- real_of_int rows / 2) (real_of_int rows / 2)
      in np_meshgrid (map (\<lambda>v. np_div v (Fin (real_of_int cols))) array_cols)
                     (map (\<lambda>v. np_div v (Fin (real_of_int rows))) array_rows))"

text \<open>
  \<^verbatim>\<open>_low_pass_filter(fsize, cutoff, n)\<close>; an Isabelle name starts with a letter. The order
  \<open>n\<close> is a Python integer.
\<close>

definition low_pass_filter :: "int \<times> int \<Rightarrow> real \<Rightarrow> int \<Rightarrow> error + npfloat list list" where
  "low_pass_filter fsize cutoff n =
     (if cutoff < 0 \<or> cutoff > 0.5 then
        Inl (Exception ''Cutoff frequency must be between 0 and 0.5.'')
      else if n < 1 then
        Inl (Exception ''n must be an integer >= 1.'')
      else
        (let (x, y) = lp_meshgrid fsize;
             radius = zip2d np_hypot x y;
             f = map2d (\<lambda>r. np_div (Fin 1.0)
                    (np_add (Fin 1.0) (np_power (np_div r (Fin cutoff)) (nat (2 * n))))) radius
         in Inr f))"

text \<open>
  The specification's description of the filter: the \<open>k\<close>-th value of
  \<^verbatim>\<open>arange(-n/2, n/2)\<close>, the Euclidean radius of cell \<open>(i, j)\<close> on the grid whose
  columns are divided by \<open>cols\<close> and rows by \<open>rows\<close>, and the Butterworth value at
  radius \<open>r\<close>.
\<close>

definition arange_coord :: "int \<Rightarrow> int \<Rightarrow> real" where
  "arange_coord n k = - real_of_int n / 2 + real_of_int k"

definition lp_radius_formula :: "int \<Rightarrow> int \<Rightarrow> int \<Rightarrow> int \<Rightarrow> real" where
  "lp_radius_formula cols rows i j =
     sqrt ((arange_coord cols j / real_of_int cols)\<^sup>2
         + (arange_coord rows i / real_of_int rows)\<^sup>2)"

definition butterworth_formula :: "real \<Rightarrow> int \<Rightarrow> real \<Rightarrow> real" where
  "butterworth_formula cutoff n r = 1 / (1 + (r / cutoff) ^ nat (2 * n))"

section \<open>\<^verbatim>\<open>get_log_gabor_kernel\<close>\<close>

text \<open>
  The normalized frequency grid (source lines 74 to 77): both axes divided by
  \<open>min cols rows\<close>; and the radius of every cell (line 83).
\<close>

definition lg_meshgrid :: "int \<times> int \<Rightarrow> npfloat list list \<times> npfloat list list" where
  "lg_meshgrid ksize =
     (let (cols, rows) = ksize;
          array_cols = np_arange (- real_of_int cols / 2) (real_of_int cols / 2);
          array_rows = np_arange (- real_of_int rows / 2) (real_of_int rows / 2)
      in np_meshgrid (map (\<lambda>v. np_div v (Fin (real_of_int (min cols rows)))) array_cols)
                     (map (\<lambda>v. np_div v (Fin (real_of_int (min cols rows)))) array_rows))"

definition lg_radius :: "int \<times> int \<Rightarrow> npfloat list list" where
  "lg_radius ksize = (let (x, y) = lg_meshgrid ksize in zip2d np_hypot x y)"

text \<open>The radial component (lines 92 to 94), from the patched radius.\<close>

definition lg_radial_denominator :: "real \<Rightarrow> npfloat" where
  "lg_radial_denominator sigma_over_f = np_mul (Fin 2) (np_power (np_log (Fin sigma_over_f)) 2)"

definition lg_radial :: "npfloat list list \<Rightarrow> real \<Rightarrow> real \<Rightarrow> npfloat list list" where
  "lg_radial radius f0 sigma_over_f =
     (let lg_radial_numerator =
            map2d (\<lambda>r. np_neg (np_power (np_log (np_div r (Fin f0))) 2)) radius
      in map2d (\<lambda>v. np_exp (np_div v (lg_radial_denominator sigma_over_f)))
           lg_radial_numerator)"

text \<open>
  The angular component (lines 101 to 123); \<^verbatim>\<open>2 * sigma_theta0 ** 2\<close> is computed on
  Python scalars, the division by it is numpy's.
\<close>

definition lg_angular ::
  "npfloat list list \<Rightarrow> npfloat list list \<Rightarrow> real \<Rightarrow> real \<Rightarrow> npfloat list list" where
  "lg_angular x y theta0 sigma_theta0 =
     (let theta = zip2d (\<lambda>yv xv. np_arctan2 (np_neg yv) xv) y x;
          sintheta = map2d np_sin theta;
          costheta = map2d np_cos theta;
          angl = theta0;
          sinangl = np_sin (Fin angl);
          cosangl = np_cos (Fin angl);
          ds = zip2d np_sub (map2d (\<lambda>s. np_mul s cosangl) sintheta)
                            (map2d (\<lambda>c. np_mul c sinangl) costheta);
          dc = zip2d np_add (map2d (\<lambda>c. np_mul c cosangl) costheta)
                            (map2d (\<lambda>s. np_mul s sinangl) sintheta);
          dtheta = map2d np_abs (zip2d np_arctan2 ds dc)
      in map2d (\<lambda>d. np_exp (np_div (np_neg (np_power d 2)) (Fin (2 * sigma_theta0 ^ 2))))
           dtheta)"

text \<open>
  The function itself: \<open>radius1\<close> is \<^verbatim>\<open>radius\<close> after the patch of the centre cell
  (line 89), \<open>lg_radial1\<close> is \<^verbatim>\<open>lg_radial\<close> after the reset of that cell (line 98).
\<close>

definition get_log_gabor_kernel ::
  "int \<times> int \<Rightarrow> real \<Rightarrow> real \<Rightarrow> real \<Rightarrow> real \<Rightarrow> error + npfloat list list" where
  "get_log_gabor_kernel ksize f0 theta0 sigma_over_f sigma_theta0 =
     (let (cols, rows) = ksize;
          (x, y) = lg_meshgrid ksize;
          radius = lg_radius ksize
      in case itemset radius (py_int (real_of_int rows / 2)) (py_int (real_of_int cols / 2))
                (Fin 1.0) of
           Inl e \<Rightarrow> Inl e
         | Inr radius1 \<Rightarrow>
       (case itemset (lg_radial radius1 f0 sigma_over_f)
                (py_int (real_of_int rows / 2)) (py_int (real_of_int cols / 2)) (Fin 0.0) of
           Inl e \<Rightarrow> Inl e
         | Inr lg_radial1 \<Rightarrow>
       (case low_pass_filter ksize 0.45 15 of
           Inl e \<Rightarrow> Inl e
         | Inr lp \<Rightarrow>
             Inr (zip2d np_mul
                    (zip2d np_mul lg_radial1 (lg_angular x y theta0 sigma_theta0)) lp))))"

text \<open>
  The absolute angular distance (lines 101 to 120) of a point with finite coordinates
  \<open>(x, y)\<close> from the orientation \<open>theta0\<close>.
\<close>

definition angular_distance :: "real \<Rightarrow> real \<Rightarrow> real \<Rightarrow> real" where
  "angular_distance x y theta0 =
     (let theta = arctan2 (- y) x;
          ds = sin theta * cos theta0 - cos theta * sin theta0;
          dc = cos theta * cos theta0 + sin theta * sin theta0
      in \<bar>arctan2 ds dc\<bar>)"

section \<open>\<^verbatim>\<open>get_gabor_filterbank\<close>\<close>

text \<open>
  The body of the inner loop (lines 190 to 196): the parameters of one kernel, the call
  and the append.
\<close>

definition filterbank_step ::
  "int \<times> int \<Rightarrow> int \<Rightarrow> real \<Rightarrow> real \<Rightarrow> real \<Rightarrow> real \<Rightarrow> int \<Rightarrow> int \<Rightarrow>
   real list list list \<Rightarrow> error + real list list list" where
  "filterbank_step ksize n_orientations min_sigma scale_factor gamma psi scale orientation filters =
     (let sigma = min_sigma + real_of_int scale;
          lambd = sigma * scale_factor
      in case py_truediv (real_of_int orientation) (real_of_int n_orientations) of
           Inl e \<Rightarrow> Inl e
         | Inr q \<Rightarrow>
       (let theta = 2 * pi * q
        in case get_gabor_kernel ksize sigma theta lambd gamma psi of
             Inl e \<Rightarrow> Inl e
           | Inr f \<Rightarrow> Inr (filters @ [f])))"

definition get_gabor_filterbank ::
  "int \<times> int \<Rightarrow> int \<Rightarrow> int \<Rightarrow> real \<Rightarrow> real \<Rightarrow> real \<Rightarrow> real \<Rightarrow> error + real list list list" where
  "get_gabor_filterbank ksize n_scales n_orientations min_sigma scale_factor gamma psi =
     for_each (py_range n_scales)
       (\<lambda>scale. for_each (py_range n_orientations)
          (filterbank_step ksize n_orientations min_sigma scale_factor gamma psi scale))
       []"

text \<open>
  The call of \<open>get_gabor_kernel\<close> the specification gives for the pair
  \<open>(scale, orientation)\<close>.
\<close>

definition bank_kernel ::
  "int \<times> int \<Rightarrow> int \<Rightarrow> real \<Rightarrow> real \<Rightarrow> real \<Rightarrow> real \<Rightarrow> int \<Rightarrow> int \<Rightarrow> error + real list list" where
  "bank_kernel ksize n_orientations min_sigma scale_factor gamma psi scale orientation =
     get_gabor_kernel ksize (min_sigma + real_of_int scale)
       (2 * pi * (real_of_int orientation / real_of_int n_orientations))
       ((min_sigma + real_of_int scale) * scale_factor) gamma psi"

section \<open>Loops that fill an array\<close>

lemma adjust_index_in_range: "i < n \<Longrightarrow> adjust_index n (int i) = Inr i"
  by (simp add: adjust_index_def)

lemma itemset_in_range:
  "i < length a \<Longrightarrow> j < length (a ! i) \<Longrightarrow>
   itemset a (int i) (int j) v = Inr (a[i := (a ! i)[j := v]])"
  by (simp add: itemset_def adjust_index_in_range)

lemma for_each_row:
  assumes "i < length a"
  shows "\<forall>j\<in>set js. j < length (a ! i) \<Longrightarrow>
         for_each (map int js) (\<lambda>j k. itemset k (int i) j (g j)) a =
           Inr (a[i := fold (\<lambda>j r. r[j := g (int j)]) js (a ! i)])"
  using assms
proof (induction js arbitrary: a)
  case Nil
  then show ?case by simp
next
  case (Cons j js)
  let ?a = "a[i := (a ! i)[j := g (int j)]]"
  have len: "i < length ?a" using Cons.prems by simp
  have row: "?a ! i = (a ! i)[j := g (int j)]" using Cons.prems by simp
  have "\<forall>j\<in>set js. j < length (?a ! i)" using Cons.prems row by simp
  from Cons.IH[OF this len] show ?case
    using Cons.prems by (simp add: itemset_in_range row)
qed

lemma length_fold_update: "length (fold (\<lambda>j r. r[j := f j]) js r) = length r"
  by (induction js arbitrary: r) simp_all

lemma nth_fold_update:
  "c < length r \<Longrightarrow>
   fold (\<lambda>j r. r[j := f j]) js r ! c = (if c \<in> set js then f c else r ! c)"
  by (induction js arbitrary: r) (auto simp: length_fold_update nth_list_update)

lemma fold_update_upt:
  "fold (\<lambda>j r. r[j := f j]) [0..<length r] r = map f [0..<length r]"
  by (rule nth_equalityI) (simp_all add: length_fold_update nth_fold_update)

lemma for_each_row_upt:
  assumes "i < length a"
  shows "for_each (py_range (int (length (a ! i)))) (\<lambda>j k. itemset k (int i) j (g j)) a =
           Inr (a[i := map (\<lambda>j. g (int j)) [0..<length (a ! i)]])"
  using for_each_row[OF assms, of "[0..<length (a ! i)]" g]
  by (simp add: py_range_def fold_update_upt)

lemma for_each_grid:
  "\<forall>i\<in>set rs. i < length a \<and> length (a ! i) = w \<Longrightarrow>
   for_each (map int rs) (\<lambda>i. for_each (py_range (int w)) (\<lambda>j k. itemset k i j (v i j))) a =
     Inr (fold (\<lambda>i b. b[i := map (\<lambda>j. v (int i) (int j)) [0..<w]]) rs a)"
proof (induction rs arbitrary: a)
  case Nil
  then show ?case by simp
next
  case (Cons i rs)
  let ?a = "a[i := map (\<lambda>j. v (int i) (int j)) [0..<w]]"
  have i: "i < length a" and w: "length (a ! i) = w" using Cons.prems by simp_all
  have step: "for_each (py_range (int w)) (\<lambda>j k. itemset k (int i) j (v (int i) j)) a = Inr ?a"
    using for_each_row_upt[OF i, of "v (int i)"] w by simp
  have "\<forall>r\<in>set rs. r < length ?a \<and> length (?a ! r) = w"
    using Cons.prems by (auto simp: nth_list_update)
  from Cons.IH[OF this] show ?case by (simp add: step)
qed

lemma for_each_grid_upt:
  assumes "\<forall>r\<in>set a. length r = w"
  shows "for_each (py_range (int (length a)))
           (\<lambda>i. for_each (py_range (int w)) (\<lambda>j k. itemset k i j (v i j))) a =
         Inr (map (\<lambda>i. map (\<lambda>j. v (int i) (int j)) [0..<w]) [0..<length a])"
proof -
  have "\<forall>i\<in>set [0..<length a]. i < length a \<and> length (a ! i) = w"
    using assms by simp
  from for_each_grid[OF this, of v]
  show ?thesis
    by (simp add: py_range_def fold_update_upt)
qed

section \<open>Properties of \<^verbatim>\<open>get_gabor_kernel\<close>\<close>

lemma py_int_half: "0 \<le> w \<Longrightarrow> py_int (real_of_int w / 2) = \<lfloor>real_of_int w / 2\<rfloor>"
  by (simp add: py_int_def)

lemma gabor_exponent:
  "(- 0.5 / sigma\<^sup>2) * xr * xr + (- 0.5 / (sigma / gamma)\<^sup>2) * yr * yr =
   - 0.5 * xr\<^sup>2 / sigma\<^sup>2 - 0.5 * yr\<^sup>2 / (sigma / gamma)\<^sup>2" for sigma :: real
  by (simp add: power2_eq_square)

lemma gabor_value:
  "exp ((- 0.5 / sigma\<^sup>2) * xr * xr + (- 0.5 / (sigma / gamma)\<^sup>2) * yr * yr)
     * cos (pi * 2.0 / lambd * xr + psi) =
   exp (- 0.5 * xr\<^sup>2 / sigma\<^sup>2 - 0.5 * yr\<^sup>2 / (sigma / gamma)\<^sup>2)
     * cos ((2 * pi / lambd) * xr + psi)" for sigma :: real
proof -
  have "pi * 2.0 / lambd * xr = (2 * pi / lambd) * xr" by simp
  then show ?thesis by (simp only: gabor_exponent)
qed

lemma get_gabor_kernel_grid:
  assumes "0 \<le> width" "0 \<le> height" "sigma \<noteq> 0" "gamma \<noteq> 0" "lambd \<noteq> 0"
  shows "get_gabor_kernel (width, height) sigma theta lambd gamma psi =
           Inr (map (\<lambda>i. map (\<lambda>j. gabor_formula width height sigma theta lambd gamma psi
                                   (int i) (int j)) [0..<nat width]) [0..<nat height])"
proof -
  let ?a = "replicate (nat height) (replicate (nat width) (0::real))"
  let ?hw = "\<lfloor>real_of_int width / 2\<rfloor>" and ?hh = "\<lfloor>real_of_int height / 2\<rfloor>"
  let ?cx = "- 0.5 / sigma\<^sup>2" and ?cy = "- 0.5 / (sigma / gamma)\<^sup>2"
  let ?cs = "pi * 2.0 / lambd"
  let ?cell = "gabor_cell (cos theta) (sin theta) ?hw ?hh ?cx ?cy ?cs psi"
  let ?v = "gabor_formula width height sigma theta lambd gamma psi"
  have cell: "?cell = (\<lambda>i j k. itemset k i j (?v i j))"
    unfolding gabor_cell_def gabor_formula_def Let_def
    by (intro ext) (simp only: gabor_value)
  have rows: "\<forall>r\<in>set ?a. length r = nat width" by simp
  have len: "int (length ?a) = height" using assms by simp
  have w: "int (nat width) = width" using assms by simp
  have loops: "for_each (py_range height) (\<lambda>i. for_each (py_range width) (?cell i)) ?a =
      Inr (map (\<lambda>i. map (\<lambda>j. ?v (int i) (int j)) [0..<nat width]) [0..<nat height])"
    unfolding cell using for_each_grid_upt [OF rows, of ?v] unfolding len w by simp
  have "get_gabor_kernel (width, height) sigma theta lambd gamma psi =
      for_each (py_range height) (\<lambda>i. for_each (py_range width) (?cell i)) ?a"
    using assms
    by (simp add: get_gabor_kernel_def np_zeros_def py_truediv_def Let_def py_int_half)
  then show ?thesis by (simp only: loops)
qed

text \<open>
  A kernel evaluated from the definitions, loop by loop. On the even size \<open>(2, 2)\<close> the
  origin of the offsets is the cell \<open>(1, 1)\<close>, not the middle of the grid.
\<close>

lemma get_gabor_kernel_2x2:
  "get_gabor_kernel (2, 2) 1 0 4 1 0 = Inr [[0, exp (- 1 / 2)], [0, 1]]"
proof -
  have r: "py_range 2 = [0, 1]" by (simp add: py_range_def upt_rec)
  have h: "py_int (real_of_int 2 / 2) = 1" by (simp add: py_int_def)
  have z: "np_zeros 2 2 = Inr [[0, 0], [0, 0]]" by (simp add: np_zeros_def eval_nat_numeral)
  have c: "cos (pi * 2 / 4) = 0" by simp
  show ?thesis
    unfolding get_gabor_kernel_def Let_def prod.case r h z
    by (simp add: py_truediv_def gabor_cell_def itemset_def adjust_index_def c)
qed

text \<open>
  Claim C2. For a size \<open>(width, height)\<close> with positive dimensions, \<open>sigma\<close>,
  \<open>gamma\<close> and \<open>lambd\<close> different from 0 and a cell \<open>(i, j)\<close> with
  \<open>0 \<le> i < height\<close> and \<open>0 \<le> j < width\<close>, \<open>get_gabor_kernel\<close> returns a grid of
  \<open>height\<close> rows of \<open>width\<close> cells whose cell \<open>(i, j)\<close> is the value of the
  specification's formula, with the floored half sizes.
\<close>

theorem get_gabor_kernel_formula:
  assumes "0 < width" "0 < height" "sigma \<noteq> 0" "gamma \<noteq> 0" "lambd \<noteq> 0"
    and "0 \<le> i" "i < height" "0 \<le> j" "j < width"
  shows "\<exists>kern. get_gabor_kernel (width, height) sigma theta lambd gamma psi = Inr kern
           \<and> length kern = nat height
           \<and> (\<forall>row\<in>set kern. length row = nat width)
           \<and> kern ! nat i ! nat j = gabor_formula width height sigma theta lambd gamma psi i j"
proof -
  have "nat i < nat height" "nat j < nat width" using assms by simp_all
  then show ?thesis
    using assms by (simp add: get_gabor_kernel_grid [of width height sigma gamma lambd])
qed

theorem get_gabor_kernel_formula_witness:
  "\<exists>kern. get_gabor_kernel (5, 5) 1 0 3 1 0 = Inr kern \<and> length kern = 5 \<and> kern ! 2 ! 2 = 1"
proof -
  from get_gabor_kernel_formula [of 5 5 1 1 3 2 2 0 0]
  obtain kern where "get_gabor_kernel (5, 5) 1 0 3 1 0 = Inr kern" "length kern = 5"
    "kern ! 2 ! 2 = 1"
    by (auto simp: gabor_formula_def)
  then show ?thesis by blast
qed

lemma gabor_formula_point_symmetric:
  assumes "i' - \<lfloor>real_of_int height / 2\<rfloor> = - (i - \<lfloor>real_of_int height / 2\<rfloor>)"
    and "j' - \<lfloor>real_of_int width / 2\<rfloor> = - (j - \<lfloor>real_of_int width / 2\<rfloor>)"
  shows "gabor_formula width height sigma theta lambd gamma 0 i' j' =
         gabor_formula width height sigma theta lambd gamma 0 i j"
proof -
  let ?y = "real_of_int (i - \<lfloor>real_of_int height / 2\<rfloor>)"
  let ?x = "real_of_int (j - \<lfloor>real_of_int width / 2\<rfloor>)"
  have y: "real_of_int (i' - \<lfloor>real_of_int height / 2\<rfloor>) = - ?y"
    using assms(1) by simp
  have x: "real_of_int (j' - \<lfloor>real_of_int width / 2\<rfloor>) = - ?x"
    using assms(2) by simp
  have xr: "- ?x * cos theta + - ?y * sin theta = - (?x * cos theta + ?y * sin theta)"
    by (simp add: algebra_simps)
  have yr: "- (- ?x) * sin theta + - ?y * cos theta = - (- ?x * sin theta + ?y * cos theta)"
    by (simp add: algebra_simps)
  show ?thesis
    unfolding gabor_formula_def Let_def y x xr yr
    by (simp only: power2_minus mult_minus_right cos_minus add_0_right)
qed

text \<open>
  Claim C8. For \<open>gamma = 1\<close> and \<open>psi = 0\<close> the grid of \<open>get_gabor_kernel\<close> is point
  symmetric about the centre offset: two cells of the grid whose centred offsets are
  \<open>(x, y)\<close> and \<open>(-x, -y)\<close> hold the same value.
\<close>

theorem get_gabor_kernel_point_symmetry:
  assumes "0 < width" "0 < height" "sigma \<noteq> 0" "lambd \<noteq> 0"
    and "0 \<le> i" "i < height" "0 \<le> j" "j < width"
    and "0 \<le> i'" "i' < height" "0 \<le> j'" "j' < width"
    and "i' - \<lfloor>real_of_int height / 2\<rfloor> = - (i - \<lfloor>real_of_int height / 2\<rfloor>)"
    and "j' - \<lfloor>real_of_int width / 2\<rfloor> = - (j - \<lfloor>real_of_int width / 2\<rfloor>)"
  shows "\<exists>kern. get_gabor_kernel (width, height) sigma theta lambd 1 0 = Inr kern
           \<and> kern ! nat i' ! nat j' = kern ! nat i ! nat j"
proof -
  have "nat i < nat height" "nat j < nat width" "nat i' < nat height" "nat j' < nat width"
    using assms by simp_all
  then show ?thesis
    using assms
    by (simp add: get_gabor_kernel_grid [of width height sigma 1 lambd]
        gabor_formula_point_symmetric)
qed

theorem get_gabor_kernel_point_symmetry_witness:
  "\<exists>kern. get_gabor_kernel (4, 5) 2 (pi / 3) 3 1 0 = Inr kern
     \<and> kern ! 3 ! 3 = kern ! 1 ! 1"
proof -
  have "\<lfloor>real_of_int 5 / 2\<rfloor> = (2::int)" "\<lfloor>real_of_int 4 / 2\<rfloor> = (2::int)"
    by simp_all
  with get_gabor_kernel_point_symmetry
    [where width = 4 and height = 5 and sigma = 2 and lambd = 3 and theta = "pi / 3"
       and i = 1 and j = 1 and i' = 3 and j' = 3]
  show ?thesis by simp
qed

text \<open>
  Claim C9. A call of \<open>get_gabor_kernel\<close> with \<open>sigma = 0\<close>, \<open>gamma = 0\<close> or
  \<open>lambd = 0\<close> raises and returns no grid: the exception is the
  \<^verbatim>\<open>ZeroDivisionError\<close> of the division that computes \<^verbatim>\<open>const_x\<close>, \<^verbatim>\<open>const_y\<close> or
  \<^verbatim>\<open>const_scale\<close>, raised before any cell is computed (on a negative dimension
  \<^verbatim>\<open>np.zeros\<close> has raised before).
\<close>

theorem get_gabor_kernel_zero_parameter:
  assumes "sigma = 0 \<or> gamma = 0 \<or> lambd = 0"
  shows "get_gabor_kernel (width, height) sigma theta lambd gamma psi =
           Inl (if height < 0 \<or> width < 0 then ValueError else ZeroDivisionError)"
  using assms
  by (auto simp: get_gabor_kernel_def np_zeros_def py_truediv_def Let_def)

theorem get_gabor_kernel_zero_parameter_witness:
  "get_gabor_kernel (5, 5) 0 0 3 1 0 = Inl ZeroDivisionError
   \<and> get_gabor_kernel (5, 5) 1 0 3 0 0 = Inl ZeroDivisionError
   \<and> get_gabor_kernel (5, 5) 1 0 0 1 0 = Inl ZeroDivisionError"
  using get_gabor_kernel_zero_parameter [of 0 1 3 5 5 0 0]
    get_gabor_kernel_zero_parameter [of 1 0 3 5 5 0 0]
    get_gabor_kernel_zero_parameter [of 1 1 0 5 5 0 0]
  by simp

section \<open>Shapes and cells of arrays\<close>

lemma has_shape_nth: "has_shape h w a \<Longrightarrow> i < h \<Longrightarrow> length (a ! i) = w"
  by (simp add: has_shape_def)

lemma has_shape_map2d: "has_shape h w a \<Longrightarrow> has_shape h w (map2d f a)"
  by (auto simp: has_shape_def map2d_def)

lemma has_shape_zip2d:
  "has_shape h w a \<Longrightarrow> has_shape h w b \<Longrightarrow> has_shape h w (zip2d f a b)"
  by (auto simp: has_shape_def zip2d_def in_set_zip)

lemma map2d_nth:
  "has_shape h w a \<Longrightarrow> i < h \<Longrightarrow> j < w \<Longrightarrow> map2d f a ! i ! j = f (a ! i ! j)"
  by (simp add: has_shape_def map2d_def)

lemma zip2d_nth:
  "has_shape h w a \<Longrightarrow> has_shape h w b \<Longrightarrow> i < h \<Longrightarrow> j < w \<Longrightarrow>
   zip2d f a b ! i ! j = f (a ! i ! j) (b ! i ! j)"
  by (simp add: has_shape_def zip2d_def)

lemma has_shape_grid: "has_shape h w (map (\<lambda>i. map (g i) [0..<w]) [0..<h])"
  by (auto simp: has_shape_def)

lemma grid_nth: "i < h \<Longrightarrow> j < w \<Longrightarrow> map (\<lambda>i. map (g i) [0..<w]) [0..<h] ! i ! j = g i j"
  by simp

lemma has_shape_itemset:
  "has_shape h w a \<Longrightarrow> i < h \<Longrightarrow> j < w \<Longrightarrow>
   itemset a (int i) (int j) v = Inr (a[i := (a ! i)[j := v]])
   \<and> has_shape h w (a[i := (a ! i)[j := v]])"
  by (auto simp: has_shape_def itemset_in_range dest!: set_update_subset_insert [THEN subsetD])

lemma has_shape_replicate:
  assumes "has_shape h w g" "\<And>i j. i < h \<Longrightarrow> j < w \<Longrightarrow> g ! i ! j = v"
  shows "g = replicate h (replicate w v)"
proof (rule nth_equalityI)
  show "length g = length (replicate h (replicate w v))" using assms(1) by (simp add: has_shape_def)
next
  fix i assume "i < length g"
  then have i: "i < h" using assms(1) by (simp add: has_shape_def)
  have "g ! i = replicate w v"
  proof (rule nth_equalityI)
    show "length (g ! i) = length (replicate w v)" using has_shape_nth [OF assms(1) i] by simp
  next
    fix j assume "j < length (g ! i)"
    then have "j < w" using has_shape_nth [OF assms(1) i] by simp
    then show "g ! i ! j = replicate w v ! j" using assms(2) [OF i] by simp
  qed
  then show "g ! i = replicate h (replicate w v) ! i" using i by simp
qed

lemma np_arange_centred:
  "np_arange (- real_of_int c / 2) (real_of_int c / 2) =
     map (\<lambda>k. Fin (- real_of_int c / 2 + real k)) [0..<nat c]"
  by (simp add: np_arange_def)

lemma np_meshgrid_grid:
  "np_meshgrid (map f [0..<w]) (map g [0..<h]) =
     (map (\<lambda>i. map (\<lambda>j. f j) [0..<w]) [0..<h], map (\<lambda>i. map (\<lambda>j. g i) [0..<w]) [0..<h])"
  by (simp add: np_meshgrid_def map_replicate_const)

lemma zip2d_grid:
  "zip2d f (map (\<lambda>i. map (a i) [0..<w]) [0..<h]) (map (\<lambda>i. map (b i) [0..<w]) [0..<h]) =
     map (\<lambda>i. map (\<lambda>j. f (a i j) (b i j)) [0..<w]) [0..<h]"
  by (rule nth_equalityI) (simp_all add: zip2d_def, rule nth_equalityI, simp_all)

lemma map2d_grid:
  "map2d f (map (\<lambda>i. map (a i) [0..<w]) [0..<h]) = map (\<lambda>i. map (\<lambda>j. f (a i j)) [0..<w]) [0..<h]"
  by (simp add: map2d_def)

section \<open>Properties of \<^verbatim>\<open>_low_pass_filter\<close>\<close>

lemma np_power_Fin: "np_power (Fin a) k = Fin (a ^ k)"
  by (cases k) simp_all

lemma np_power_PInf: "0 < k \<Longrightarrow> np_power PInf k = PInf"
  by (cases k) simp_all

lemma centred_meshgrid:
  "np_meshgrid (map (\<lambda>v. np_div v d1) (np_arange (- real_of_int cols / 2) (real_of_int cols / 2)))
               (map (\<lambda>v. np_div v d2) (np_arange (- real_of_int rows / 2) (real_of_int rows / 2))) =
   (map (\<lambda>i. map (\<lambda>j. np_div (Fin (arange_coord cols (int j))) d1) [0..<nat cols]) [0..<nat rows],
    map (\<lambda>i. map (\<lambda>j. np_div (Fin (arange_coord rows (int i))) d2) [0..<nat cols]) [0..<nat rows])"
proof -
  have c: "map (\<lambda>v. np_div v d1) (np_arange (- real_of_int cols / 2) (real_of_int cols / 2)) =
      map (\<lambda>j. np_div (Fin (arange_coord cols (int j))) d1) [0..<nat cols]"
    by (simp only: np_arange_centred map_map comp_def arange_coord_def of_int_of_nat_eq)
  have r: "map (\<lambda>v. np_div v d2) (np_arange (- real_of_int rows / 2) (real_of_int rows / 2)) =
      map (\<lambda>i. np_div (Fin (arange_coord rows (int i))) d2) [0..<nat rows]"
    by (simp only: np_arange_centred map_map comp_def arange_coord_def of_int_of_nat_eq)
  show ?thesis unfolding c r by (rule np_meshgrid_grid)
qed

lemma lp_meshgrid_grid:
  "lp_meshgrid (cols, rows) =
   (map (\<lambda>i. map (\<lambda>j. np_div (Fin (arange_coord cols (int j))) (Fin (real_of_int cols)))
           [0..<nat cols]) [0..<nat rows],
    map (\<lambda>i. map (\<lambda>j. np_div (Fin (arange_coord rows (int i))) (Fin (real_of_int rows)))
           [0..<nat cols]) [0..<nat rows])"
  unfolding lp_meshgrid_def Let_def prod.case by (rule centred_meshgrid)

lemma low_pass_filter_grid:
  assumes "0 \<le> cutoff" "cutoff \<le> 0.5" "1 \<le> n"
  shows "low_pass_filter (cols, rows) cutoff n =
     Inr (map (\<lambda>i. map (\<lambda>j. np_div (Fin 1) (np_add (Fin 1) (np_power
              (np_div (np_hypot (np_div (Fin (arange_coord cols (int j))) (Fin (real_of_int cols)))
                                (np_div (Fin (arange_coord rows (int i))) (Fin (real_of_int rows))))
                      (Fin cutoff)) (nat (2 * n)))))
           [0..<nat cols]) [0..<nat rows])"
proof -
  have "\<not> (cutoff < 0 \<or> cutoff > 0.5)" "\<not> n < 1" using assms by simp_all
  then show ?thesis
    unfolding low_pass_filter_def lp_meshgrid_grid Let_def prod.case zip2d_grid map2d_grid
    by (simp only: if_False) simp
qed

lemma butterworth_cell:
  assumes "0 < cols" "0 < rows" "0 < cutoff"
  shows "np_div (Fin 1) (np_add (Fin 1) (np_power
              (np_div (np_hypot (np_div (Fin (arange_coord cols j)) (Fin (real_of_int cols)))
                                (np_div (Fin (arange_coord rows i)) (Fin (real_of_int rows))))
                      (Fin cutoff)) (nat (2 * n)))) =
         Fin (butterworth_formula cutoff n (lp_radius_formula cols rows i j))"
proof -
  have "0 \<le> (lp_radius_formula cols rows i j / cutoff) ^ nat (2 * n)"
    using assms by (simp add: lp_radius_formula_def)
  then have "1 + (lp_radius_formula cols rows i j / cutoff) ^ nat (2 * n) \<noteq> 0"
    by linarith
  then show ?thesis
    using assms
    by (simp add: np_power_Fin butterworth_formula_def lp_radius_formula_def)
qed

text \<open>
  Claim C6. For a size with positive dimensions, \<open>cutoff\<close> in \<open>(0, 0.5]\<close> and an
  integer order \<open>n \<ge> 1\<close>, \<open>low_pass_filter\<close> returns a grid whose cell \<open>(i, j)\<close> is
  \<open>1 / (1 + (r / cutoff) ^ (2 n))\<close>, with \<open>r\<close> the Euclidean radius of the cell on the
  grid of columns \<^verbatim>\<open>arange(-cols/2, cols/2) / cols\<close> and rows
  \<^verbatim>\<open>arange(-rows/2, rows/2) / rows\<close>; at a cell whose radius is exactly \<open>cutoff\<close> the
  value is \<open>0.5\<close>, whatever \<open>n\<close>.
\<close>

theorem low_pass_filter_formula:
  assumes "0 < cols" "0 < rows" "0 < cutoff" "cutoff \<le> 0.5" "1 \<le> n"
    and "0 \<le> i" "i < rows" "0 \<le> j" "j < cols"
  shows "\<exists>f. low_pass_filter (cols, rows) cutoff n = Inr f
           \<and> f ! nat i ! nat j = Fin (butterworth_formula cutoff n (lp_radius_formula cols rows i j))
           \<and> (lp_radius_formula cols rows i j = cutoff \<longrightarrow> f ! nat i ! nat j = Fin 0.5)"
proof -
  let ?r = "lp_radius_formula cols rows i j"
  have idx: "nat i < nat rows" "nat j < nat cols" "int (nat i) = i" "int (nat j) = j"
    using assms by simp_all
  from low_pass_filter_grid [of cutoff n cols rows] assms
  obtain f where f: "low_pass_filter (cols, rows) cutoff n = Inr f"
    and cell: "f ! nat i ! nat j = np_div (Fin 1) (np_add (Fin 1) (np_power
              (np_div (np_hypot (np_div (Fin (arange_coord cols j)) (Fin (real_of_int cols)))
                                (np_div (Fin (arange_coord rows i)) (Fin (real_of_int rows))))
                      (Fin cutoff)) (nat (2 * n))))"
    using idx by simp
  have val: "f ! nat i ! nat j = Fin (butterworth_formula cutoff n ?r)"
    unfolding cell using assms by (intro butterworth_cell) simp_all
  have "butterworth_formula cutoff n cutoff = 0.5"
    using assms by (simp add: butterworth_formula_def)
  with f val show ?thesis by auto
qed

theorem low_pass_filter_formula_witness:
  "\<exists>f. low_pass_filter (4, 4) 0.5 3 = Inr f \<and> f ! 0 ! 2 = Fin 0.5
     \<and> f ! 2 ! 2 = Fin 1"
proof -
  have r: "lp_radius_formula 4 4 0 2 = 0.5" "lp_radius_formula 4 4 2 2 = 0"
    by (simp_all add: lp_radius_formula_def arange_coord_def real_sqrt_divide)
  from low_pass_filter_formula [of 4 4 "0.5" 3 0 2] r(1)
  obtain f where f: "low_pass_filter (4, 4) 0.5 3 = Inr f" "f ! 0 ! 2 = Fin 0.5"
    by auto
  from low_pass_filter_formula [of 4 4 "0.5" 3 2 2] f(1) r(2)
  have "f ! 2 ! 2 = Fin 1" by (simp add: butterworth_formula_def)
  with f show ?thesis by blast
qed

text \<open>
  Claim C3, as the code has it. \<open>low_pass_filter\<close> raises, before anything is computed,
  exactly when \<open>cutoff < 0\<close>, \<open>cutoff > 0.5\<close> or \<open>n < 1\<close>; for \<open>cutoff\<close> in the closed
  interval \<open>[0, 0.5]\<close> and \<open>n \<ge> 1\<close> it raises nothing and returns a grid of \<open>rows\<close> rows
  of \<open>cols\<close> cells.
\<close>

theorem low_pass_filter_raises:
  "(isl (low_pass_filter (cols, rows) cutoff n) \<longleftrightarrow> cutoff < 0 \<or> 0.5 < cutoff \<or> n < 1)
   \<and> (0 \<le> cutoff \<and> cutoff \<le> 0.5 \<and> 1 \<le> n \<longrightarrow>
        (\<exists>f. low_pass_filter (cols, rows) cutoff n = Inr f \<and> length f = nat rows
             \<and> (\<forall>row\<in>set f. length row = nat cols)))"
proof -
  have "isl (low_pass_filter (cols, rows) cutoff n) \<longleftrightarrow> cutoff < 0 \<or> 0.5 < cutoff \<or> n < 1"
    by (simp add: low_pass_filter_def Let_def split: prod.splits)
  moreover have "\<exists>f. low_pass_filter (cols, rows) cutoff n = Inr f \<and> length f = nat rows
             \<and> (\<forall>row\<in>set f. length row = nat cols)"
    if "0 \<le> cutoff \<and> cutoff \<le> 0.5 \<and> 1 \<le> n"
    using that by (auto simp: low_pass_filter_grid)
  ultimately show ?thesis by blast
qed

theorem low_pass_filter_raises_witness:
  "isl (low_pass_filter (4, 4) 0.6 1) \<and> isl (low_pass_filter (4, 4) 0.25 0)
   \<and> (\<exists>f. low_pass_filter (4, 4) 0.5 1 = Inr f \<and> length f = 4)"
  using low_pass_filter_raises [of 4 4 "0.6" 1] low_pass_filter_raises [of 4 4 "0.25" 0]
    low_pass_filter_raises [of 4 4 "0.5" 1]
  by auto

text \<open>
  With \<open>cutoff = 0\<close> every radius is divided by zero: a cell is \<open>1 / (1 + \<infinity>) = 0\<close>
  where the radius is positive and NaN where it is 0.
\<close>

lemma low_pass_filter_cutoff_zero_grid:
  "low_pass_filter (2, 2) 0 1 = Inr [[Fin 0, Fin 0], [Fin 0, NaN]]"
proof -
  have u: "[0..<nat 2] = [0, 1]" by (simp add: upt_rec)
  have p: "np_power PInf 2 = PInf" "np_power NaN 2 = NaN"
    by (simp_all add: eval_nat_numeral)
  have ok: "(0::real) \<le> 0" "(0::real) \<le> 0.5" "(1::int) \<le> 1" by simp_all
  show ?thesis
    unfolding low_pass_filter_grid [OF ok] u
    by (simp add: arange_coord_def p del: np_power.simps)
qed

text \<open>
  Claim C3 as stated says that a call with \<open>cutoff = 0\<close> fails. The guard of the code is
  \<^verbatim>\<open>cutoff < 0 or cutoff > 0.5\<close>: the call with \<open>cutoff = 0\<close> raises nothing and
  returns a grid.
\<close>

theorem low_pass_filter_cutoff_zero_accepted:
  "\<not> isl (low_pass_filter (4, 4) 0 1)
   \<and> low_pass_filter (2, 2) 0 1 = Inr [[Fin 0, Fin 0], [Fin 0, NaN]]"
proof -
  have "\<not> isl (low_pass_filter (4, 4) 0 1)"
    by (simp add: low_pass_filter_def Let_def split: prod.splits)
  then show ?thesis by (simp add: low_pass_filter_cutoff_zero_grid)
qed

section \<open>Properties of \<^verbatim>\<open>get_log_gabor_kernel\<close>\<close>

lemma lg_meshgrid_grid:
  "lg_meshgrid (cols, rows) =
   (map (\<lambda>i. map (\<lambda>j. np_div (Fin (arange_coord cols (int j))) (Fin (real_of_int (min cols rows))))
           [0..<nat cols]) [0..<nat rows],
    map (\<lambda>i. map (\<lambda>j. np_div (Fin (arange_coord rows (int i))) (Fin (real_of_int (min cols rows))))
           [0..<nat cols]) [0..<nat rows])"
  unfolding lg_meshgrid_def Let_def prod.case by (rule centred_meshgrid)

lemma lg_radius_grid:
  "lg_radius (cols, rows) =
     map (\<lambda>i. map (\<lambda>j. np_hypot
            (np_div (Fin (arange_coord cols (int j))) (Fin (real_of_int (min cols rows))))
            (np_div (Fin (arange_coord rows (int i))) (Fin (real_of_int (min cols rows)))))
          [0..<nat cols]) [0..<nat rows]"
  unfolding lg_radius_def lg_meshgrid_grid Let_def prod.case zip2d_grid by (rule refl)

lemma has_shape_lg_radius: "has_shape (nat rows) (nat cols) (lg_radius (cols, rows))"
  unfolding lg_radius_grid by (rule has_shape_grid)

lemma has_shape_lg_radial:
  "has_shape h w radius \<Longrightarrow> has_shape h w (lg_radial radius f0 sigma_over_f)"
  by (simp add: lg_radial_def has_shape_map2d)

lemma lg_radial_nth:
  "has_shape h w radius \<Longrightarrow> i < h \<Longrightarrow> j < w \<Longrightarrow>
   lg_radial radius f0 sigma_over_f ! i ! j =
     np_exp (np_div (np_neg (np_power (np_log (np_div (radius ! i ! j) (Fin f0))) 2))
                    (lg_radial_denominator sigma_over_f))"
  by (simp add: lg_radial_def map2d_nth [of h w] has_shape_map2d)

lemma lg_angular_grid:
  "lg_angular (map (\<lambda>i. map (\<lambda>j. Fin (X i j)) [0..<w]) [0..<h])
              (map (\<lambda>i. map (\<lambda>j. Fin (Y i j)) [0..<w]) [0..<h]) theta0 sigma_theta0 =
        map (\<lambda>i. map (\<lambda>j. np_exp (np_div (Fin (- ((angular_distance (X i j) (Y i j) theta0)\<^sup>2)))
                                          (Fin (2 * sigma_theta0 ^ 2))))
              [0..<w]) [0..<h]"
  unfolding lg_angular_def Let_def zip2d_grid map2d_grid
  by (simp add: np_sub_def np_power_Fin angular_distance_def Let_def del: np_div.simps)

lemma angular_cell_finite:
  "sigma_theta0 \<noteq> 0 \<Longrightarrow>
   np_exp (np_div (Fin a) (Fin (2 * sigma_theta0 ^ 2))) = Fin (exp (a / (2 * sigma_theta0 ^ 2)))"
  by simp

lemma angular_cell_fin_or_nan:
  "fin_or_nan (np_exp (np_div (Fin (- (d\<^sup>2))) (Fin (2 * sigma_theta0 ^ 2))))"
  by (simp add: fin_or_nan_def)

lemma floor_half: "\<lfloor>real_of_int n / 2\<rfloor> = n div 2"
  by (metis floor_divide_of_int_eq of_int_numeral)

lemma centre_index:
  assumes "0 < n"
  shows "py_int (real_of_int n / 2) = int (nat \<lfloor>real_of_int n / 2\<rfloor>)
     \<and> nat \<lfloor>real_of_int n / 2\<rfloor> < nat n"
proof -
  have "0 \<le> n div 2" "n div 2 < n" using assms by simp_all
  then show ?thesis using assms by (simp add: py_int_def floor_half)
qed

lemma has_shape_update:
  "has_shape h w a \<Longrightarrow> i < h \<Longrightarrow> j < w \<Longrightarrow> has_shape h w (a[i := (a ! i)[j := v]])"
  by (simp add: has_shape_itemset)

lemma update_nth:
  "has_shape h w a \<Longrightarrow> i < h \<Longrightarrow> j < w \<Longrightarrow> i' < h \<Longrightarrow> j' < w \<Longrightarrow>
   a[i := (a ! i)[j := v]] ! i' ! j' = (if i' = i \<and> j' = j then v else a ! i' ! j')"
  by (simp add: has_shape_def nth_list_update)

lemma lg_meshgrid_pos:
  assumes "0 < cols" "0 < rows"
  shows "lg_meshgrid (cols, rows) =
   (map (\<lambda>i. map (\<lambda>j. Fin (arange_coord cols (int j) / real_of_int (min cols rows)))
           [0..<nat cols]) [0..<nat rows],
    map (\<lambda>i. map (\<lambda>j. Fin (arange_coord rows (int i) / real_of_int (min cols rows)))
           [0..<nat cols]) [0..<nat rows])"
  using assms by (simp add: lg_meshgrid_grid)

lemma has_shape_lg_angular:
  assumes "0 < cols" "0 < rows"
  shows "has_shape (nat rows) (nat cols)
           (lg_angular (fst (lg_meshgrid (cols, rows))) (snd (lg_meshgrid (cols, rows)))
              theta0 sigma_theta0)"
  unfolding lg_meshgrid_pos [OF assms] fst_conv snd_conv lg_angular_grid
  by (rule has_shape_grid)

lemma lg_angular_nth:
  assumes "0 < cols" "0 < rows" "i < nat rows" "j < nat cols"
  shows "lg_angular (fst (lg_meshgrid (cols, rows))) (snd (lg_meshgrid (cols, rows)))
              theta0 sigma_theta0 ! i ! j =
         np_exp (np_div (Fin (- ((angular_distance
                    (arange_coord cols (int j) / real_of_int (min cols rows))
                    (arange_coord rows (int i) / real_of_int (min cols rows)) theta0)\<^sup>2)))
                 (Fin (2 * sigma_theta0 ^ 2)))"
  unfolding lg_meshgrid_pos [OF assms(1,2)] fst_conv snd_conv lg_angular_grid
  using assms(3,4) by (simp del: np_div.simps)

lemma low_pass_window:
  "\<exists>lp. low_pass_filter (cols, rows) 0.45 15 = Inr lp \<and> has_shape (nat rows) (nat cols) lp
     \<and> (0 < cols \<longrightarrow> 0 < rows \<longrightarrow> (\<forall>i<nat rows. \<forall>j<nat cols. \<exists>v. lp ! i ! j = Fin v))"
proof -
  have ok: "(0::real) \<le> 0.45" "(0.45::real) \<le> 0.5" "(1::int) \<le> 15" by simp_all
  note g = low_pass_filter_grid [OF ok, of cols rows]
  have "\<exists>v. np_div (Fin 1) (np_add (Fin 1) (np_power
              (np_div (np_hypot (np_div (Fin (arange_coord cols (int j))) (Fin (real_of_int cols)))
                                (np_div (Fin (arange_coord rows (int i))) (Fin (real_of_int rows))))
                      (Fin 0.45)) (nat (2 * 15)))) = Fin v"
    if "0 < cols" "0 < rows" for i j
    using butterworth_cell [of cols rows "0.45" "int j" "int i" 15] that by simp
  then show ?thesis
    unfolding g by (simp add: has_shape_grid del: np_div.simps np_add.simps np_hypot.simps)
qed

lemma get_log_gabor_kernel_pos:
  assumes "0 < cols" "0 < rows"
  defines "ci \<equiv> nat \<lfloor>real_of_int rows / 2\<rfloor>" and "cj \<equiv> nat \<lfloor>real_of_int cols / 2\<rfloor>"
  defines "radius1 \<equiv> (lg_radius (cols, rows))[ci := (lg_radius (cols, rows) ! ci)[cj := Fin 1]]"
  shows "\<exists>lp g. low_pass_filter (cols, rows) 0.45 15 = Inr lp
      \<and> get_log_gabor_kernel (cols, rows) f0 theta0 sigma_over_f sigma_theta0 = Inr g
      \<and> has_shape (nat rows) (nat cols) g
      \<and> (\<forall>i<nat rows. \<forall>j<nat cols. \<exists>l.
            lp ! i ! j = Fin l \<and>
            g ! i ! j = np_mul (np_mul
              (if i = ci \<and> j = cj then Fin 0 else lg_radial radius1 f0 sigma_over_f ! i ! j)
              (lg_angular (fst (lg_meshgrid (cols, rows))) (snd (lg_meshgrid (cols, rows)))
                 theta0 sigma_theta0 ! i ! j))
              (Fin l))"
proof -
  let ?h = "nat rows" and ?w = "nat cols"
  let ?ang = "lg_angular (fst (lg_meshgrid (cols, rows))) (snd (lg_meshgrid (cols, rows)))
                 theta0 sigma_theta0"
  let ?rad = "lg_radial radius1 f0 sigma_over_f"
  let ?rad1 = "?rad[ci := (?rad ! ci)[cj := Fin 0]]"
  have ci: "py_int (real_of_int rows / 2) = int ci" "ci < ?h"
    and cj: "py_int (real_of_int cols / 2) = int cj" "cj < ?w"
    using centre_index [OF assms(1)] centre_index [OF assms(2)] by (simp_all add: ci_def cj_def)
  have sh0: "has_shape ?h ?w (lg_radius (cols, rows))" by (rule has_shape_lg_radius)
  have it1: "itemset (lg_radius (cols, rows)) (int ci) (int cj) (Fin 1) = Inr radius1"
    and sh1: "has_shape ?h ?w radius1"
    using has_shape_itemset [OF sh0 ci(2) cj(2)] by (simp_all add: radius1_def)
  have shr: "has_shape ?h ?w ?rad" using sh1 by (rule has_shape_lg_radial)
  have it2: "itemset ?rad (int ci) (int cj) (Fin 0) = Inr ?rad1"
    and shr1: "has_shape ?h ?w ?rad1"
    using has_shape_itemset [OF shr ci(2) cj(2)] by simp_all
  have sha: "has_shape ?h ?w ?ang" using assms(1,2) by (rule has_shape_lg_angular)
  from low_pass_window [of cols rows] assms(1,2)
  obtain lp where lp: "low_pass_filter (cols, rows) 0.45 15 = Inr lp"
    and shl: "has_shape ?h ?w lp"
    and fin: "\<forall>i<?h. \<forall>j<?w. \<exists>v. lp ! i ! j = Fin v"
    by blast
  let ?g = "zip2d np_mul (zip2d np_mul ?rad1 ?ang) lp"
  have res: "get_log_gabor_kernel (cols, rows) f0 theta0 sigma_over_f sigma_theta0 = Inr ?g"
  proof -
    have lit: "(1.0::real) = 1" "(0.0::real) = 0" by simp_all
    show ?thesis
      unfolding get_log_gabor_kernel_def Let_def prod.case
      by (simp only: ci(1) cj(1) lit it1 it2 lp sum.case split_beta)
  qed
  have shg: "has_shape ?h ?w ?g"
    by (intro has_shape_zip2d shr1 sha shl)
  have cell: "\<exists>l. lp ! i ! j = Fin l \<and> ?g ! i ! j = np_mul (np_mul
              (if i = ci \<and> j = cj then Fin 0 else ?rad ! i ! j) (?ang ! i ! j)) (Fin l)"
    if "i < ?h" "j < ?w" for i j
  proof -
    from fin that obtain l where l: "lp ! i ! j = Fin l" by blast
    have "?g ! i ! j = np_mul (np_mul (?rad1 ! i ! j) (?ang ! i ! j)) (lp ! i ! j)"
      using that
      by (simp add: zip2d_nth [OF has_shape_zip2d [OF shr1 sha] shl]
          zip2d_nth [OF shr1 sha])
    also have "?rad1 ! i ! j = (if i = ci \<and> j = cj then Fin 0 else ?rad ! i ! j)"
      using update_nth [OF shr ci(2) cj(2) that] .
    finally show ?thesis using l by simp
  qed
  show ?thesis
    by (intro exI [of _ lp] exI [of _ ?g] conjI allI impI; (rule lp res shg cell)?)
qed


lemma adjust_index_empty: "adjust_index 0 i = Inl IndexError"
  by (simp add: adjust_index_def)

lemma itemset_lg_radius_empty:
  assumes "cols \<le> 0 \<or> rows \<le> 0"
  shows "itemset (lg_radius (cols, rows)) (py_int (real_of_int rows / 2))
           (py_int (real_of_int cols / 2)) v = Inl IndexError"
proof (cases "rows \<le> 0")
  case True
  then have "length (lg_radius (cols, rows)) = 0"
    using has_shape_lg_radius [of rows cols] by (simp add: has_shape_def)
  then show ?thesis by (simp add: itemset_def adjust_index_empty)
next
  case False
  then have rows: "0 < rows" and cols: "cols \<le> 0" using assms by simp_all
  let ?ci = "nat \<lfloor>real_of_int rows / 2\<rfloor>"
  have ci: "py_int (real_of_int rows / 2) = int ?ci" "?ci < nat rows"
    using centre_index [OF rows] by simp_all
  have len: "length (lg_radius (cols, rows)) = nat rows"
    using has_shape_lg_radius [of rows cols] by (simp add: has_shape_def)
  have "length (lg_radius (cols, rows) ! ?ci) = 0"
    using has_shape_nth [OF has_shape_lg_radius ci(2), of cols] cols by simp
  then have a2: "adjust_index (length (lg_radius (cols, rows) ! ?ci)) j = Inl IndexError" for j
    by (simp only: adjust_index_empty)
  have a1: "adjust_index (length (lg_radius (cols, rows))) (py_int (real_of_int rows / 2)) = Inr ?ci"
    unfolding len ci(1) by (rule adjust_index_in_range [OF ci(2)])
  show ?thesis unfolding itemset_def a1 sum.case a2 by (rule refl)
qed

lemma has_shape_cells:
  assumes "has_shape h w g" "\<forall>i<h. \<forall>j<w. P (g ! i ! j)"
  shows "\<forall>row\<in>set g. length row = w \<and> (\<forall>v\<in>set row. P v)"
proof (intro ballI conjI)
  fix row assume row: "row \<in> set g"
  then show len: "length row = w" using assms(1) by (simp add: has_shape_def)
  fix v assume "v \<in> set row"
  then obtain j where j: "j < w" "row ! j = v" using len by (auto simp: in_set_conv_nth)
  from row obtain i where i: "i < h" "g ! i = row"
    using assms(1) by (auto simp: in_set_conv_nth has_shape_def)
  from assms(2) i j show "P v" by auto
qed

text \<open>
  The radius grid of step 1, before the patch. Python 3 divides \<^verbatim>\<open>-cols / 2\<close> as
  floats, so for an odd dimension the coordinates are half integers and none is 0:
  cell \<open>(i, j)\<close> has radius 0 exactly when \<open>cols = 2 j\<close> and \<open>rows = 2 i\<close>, and the
  centre cell \<open>(\<lfloor>rows / 2\<rfloor>, \<lfloor>cols / 2\<rfloor>)\<close> has radius 0 exactly when both dimensions
  are even.
\<close>

lemma lg_radius_nth:
  assumes "0 < cols" "0 < rows" "i < nat rows" "j < nat cols"
  shows "lg_radius (cols, rows) ! i ! j =
     Fin (sqrt ((arange_coord cols (int j) / real_of_int (min cols rows))\<^sup>2
              + (arange_coord rows (int i) / real_of_int (min cols rows))\<^sup>2))"
proof -
  have m: "real_of_int (min cols rows) \<noteq> 0" using assms(1,2) by simp
  have "lg_radius (cols, rows) ! i ! j = np_hypot
            (np_div (Fin (arange_coord cols (int j))) (Fin (real_of_int (min cols rows))))
            (np_div (Fin (arange_coord rows (int i))) (Fin (real_of_int (min cols rows))))"
    unfolding lg_radius_grid using assms(3,4) by (rule grid_nth)
  then show ?thesis using m by simp
qed

lemma arange_coord_zero: "arange_coord n k = 0 \<longleftrightarrow> n = 2 * k"
proof -
  have "arange_coord n k = 0 \<longleftrightarrow> real_of_int n = real_of_int (2 * k)"
    by (auto simp: arange_coord_def field_simps)
  then show ?thesis by (simp only: of_int_eq_iff)
qed

lemma lg_radius_zero_iff:
  assumes "0 < cols" "0 < rows" "i < nat rows" "j < nat cols"
  shows "lg_radius (cols, rows) ! i ! j = Fin 0 \<longleftrightarrow> cols = 2 * int j \<and> rows = 2 * int i"
proof -
  have m: "real_of_int (min cols rows) \<noteq> 0" using assms by simp
  have "lg_radius (cols, rows) ! i ! j = Fin 0 \<longleftrightarrow>
      arange_coord cols (int j) = 0 \<and> arange_coord rows (int i) = 0"
    unfolding lg_radius_nth [OF assms] using m
    by (simp add: sum_power2_eq_zero_iff)
  then show ?thesis by (simp only: arange_coord_zero)
qed

lemma lg_radius_centre_zero_iff:
  assumes "0 < cols" "0 < rows"
  shows "lg_radius (cols, rows) ! nat \<lfloor>real_of_int rows / 2\<rfloor> ! nat \<lfloor>real_of_int cols / 2\<rfloor> = Fin 0
           \<longleftrightarrow> even cols \<and> even rows"
proof -
  have "0 \<le> cols div 2" "0 \<le> rows div 2" using assms by simp_all
  then have "int (nat (cols div 2)) = cols div 2" "int (nat (rows div 2)) = rows div 2"
    by simp_all
  moreover have "cols = 2 * (cols div 2) \<longleftrightarrow> even cols" "rows = 2 * (rows div 2) \<longleftrightarrow> even rows"
    by presburger+
  ultimately show ?thesis
    using lg_radius_zero_iff [OF assms, of "nat \<lfloor>real_of_int rows / 2\<rfloor>" "nat \<lfloor>real_of_int cols / 2\<rfloor>"]
      centre_index [OF assms(1)] centre_index [OF assms(2)]
    by (simp add: floor_half)
qed

lemma lg_radius_no_zero:
  assumes "0 < cols" "0 < rows" "odd cols \<or> odd rows"
  shows "Fin 0 \<notin> set (concat (lg_radius (cols, rows)))"
proof
  assume "Fin 0 \<in> set (concat (lg_radius (cols, rows)))"
  then obtain row where row: "row \<in> set (lg_radius (cols, rows))" "Fin 0 \<in> set row" by auto
  have sh: "has_shape (nat rows) (nat cols) (lg_radius (cols, rows))"
    by (rule has_shape_lg_radius)
  from row(1) sh obtain i where i: "i < nat rows" "lg_radius (cols, rows) ! i = row"
    by (auto simp: in_set_conv_nth has_shape_def)
  have "length row = nat cols" using sh row(1) by (simp add: has_shape_def)
  with row(2) obtain j where j: "j < nat cols" "row ! j = Fin 0"
    by (auto simp: in_set_conv_nth)
  have "lg_radius (cols, rows) ! i ! j = Fin 0" using i j by simp
  then have "cols = 2 * int j \<and> rows = 2 * int i"
    using lg_radius_zero_iff [OF assms(1,2) i(1) j(1)] by simp
  then show False using assms(3) by auto
qed

text \<open>
  Claim C4 at the size \<open>(3, 3)\<close>. The claim (and the comments of the code: the radius
  ranges from 0 at the centre, the patch gets rid of the 0 radius value in the middle)
  has radius 0 at the centre cell \<open>(1, 1)\<close>. The code computes the radius \<open>\<surd>2 / 6\<close>
  there and no cell of the grid has radius 0, so the patch at \<open>(1, 1)\<close> overwrites a
  non-zero radius.
\<close>

theorem lg_radius_odd_size_centre:
  "lg_radius (3, 3) ! 1 ! 1 = Fin (sqrt 2 / 6)
   \<and> Fin 0 \<notin> set (concat (lg_radius (3, 3)))
   \<and> py_int (real_of_int 3 / 2) = 1"
proof -
  have "sqrt ((1 / 6)\<^sup>2 + (1 / 6)\<^sup>2) = sqrt 2 / 6"
  proof (rule real_sqrt_unique)
    show "(sqrt 2 / 6)\<^sup>2 = (1 / 6)\<^sup>2 + (1 / 6)\<^sup>2" by (simp add: power2_eq_square)
    show "0 \<le> sqrt 2 / 6" by simp
  qed
  then have "lg_radius (3, 3) ! 1 ! 1 = Fin (sqrt 2 / 6)"
    using lg_radius_nth [of 3 3 1 1] by (simp add: arange_coord_def)
  moreover have "Fin 0 \<notin> set (concat (lg_radius (3, 3)))"
    using lg_radius_no_zero [of 3 3] by simp
  moreover have "py_int (real_of_int 3 / 2) = 1"
    by (simp add: py_int_def floor_half)
  ultimately show ?thesis by blast
qed

text \<open>
  Claim C1, as the code has it. \<open>get_log_gabor_kernel\<close> checks none of \<open>f0\<close>,
  \<open>sigma_over_f\<close> and \<open>sigma_theta0\<close>. On a size with a dimension that is not positive
  the patch of the centre cell raises \<^verbatim>\<open>IndexError\<close>, before the low-pass window is
  built, and no grid is returned; on a size with positive dimensions the call returns a
  grid of \<open>rows\<close> rows of \<open>cols\<close> cells whatever \<open>f0\<close>, \<open>sigma_over_f\<close> and
  \<open>sigma_theta0\<close> are, zero and negative values included.
\<close>

theorem get_log_gabor_kernel_raises:
  "(cols \<le> 0 \<or> rows \<le> 0 \<longrightarrow>
      get_log_gabor_kernel (cols, rows) f0 theta0 sigma_over_f sigma_theta0 = Inl IndexError)
   \<and> (0 < cols \<and> 0 < rows \<longrightarrow>
      (\<exists>g. get_log_gabor_kernel (cols, rows) f0 theta0 sigma_over_f sigma_theta0 = Inr g
          \<and> length g = nat rows \<and> (\<forall>row\<in>set g. length row = nat cols)))"
proof (intro conjI impI)
  assume "cols \<le> 0 \<or> rows \<le> 0"
  then show "get_log_gabor_kernel (cols, rows) f0 theta0 sigma_over_f sigma_theta0 = Inl IndexError"
    unfolding get_log_gabor_kernel_def Let_def prod.case
    by (simp only: itemset_lg_radius_empty sum.case split_beta)
next
  assume "0 < cols \<and> 0 < rows"
  then obtain g where "get_log_gabor_kernel (cols, rows) f0 theta0 sigma_over_f sigma_theta0 = Inr g"
    "has_shape (nat rows) (nat cols) g"
    using get_log_gabor_kernel_pos [of cols rows f0 theta0 sigma_over_f sigma_theta0] by blast
  then show "\<exists>g. get_log_gabor_kernel (cols, rows) f0 theta0 sigma_over_f sigma_theta0 = Inr g
          \<and> length g = nat rows \<and> (\<forall>row\<in>set g. length row = nat cols)"
    by (auto simp: has_shape_def)
qed

theorem get_log_gabor_kernel_raises_witness:
  "get_log_gabor_kernel (0, 4) 0.1 0 0.75 1 = Inl IndexError
   \<and> get_log_gabor_kernel (4, -1) 0.1 0 0.75 1 = Inl IndexError
   \<and> (\<exists>g. get_log_gabor_kernel (4, 4) 0 0 0.75 1 = Inr g \<and> length g = 4)"
  using get_log_gabor_kernel_raises [of 0 4 "0.1" 0 "0.75" 1]
    get_log_gabor_kernel_raises [of 4 "-1" "0.1" 0 "0.75" 1]
    get_log_gabor_kernel_raises [of 4 4 0 0 "0.75" 1]
  by auto

text \<open>
  With \<open>f0 = 0\<close> the division \<^verbatim>\<open>radius / f0\<close> gives \<open>\<infinity>\<close> at every cell (the patched
  radius is positive everywhere), the radial component is \<open>exp (-\<infinity>) = 0\<close>, and the
  kernel returned is zero at every cell.
\<close>

lemma lg_radial_denominator_pos:
  "0 < sigma_over_f \<Longrightarrow> lg_radial_denominator sigma_over_f = Fin (2 * (ln sigma_over_f)\<^sup>2)"
  by (simp add: lg_radial_denominator_def np_power_Fin)

lemma get_log_gabor_kernel_f0_zero:
  assumes "0 < cols" "0 < rows" "0 < sigma_over_f" "sigma_theta0 \<noteq> 0"
  shows "get_log_gabor_kernel (cols, rows) 0 theta0 sigma_over_f sigma_theta0 =
           Inr (replicate (nat rows) (replicate (nat cols) (Fin 0)))"
proof -
  let ?ci = "nat \<lfloor>real_of_int rows / 2\<rfloor>" and ?cj = "nat \<lfloor>real_of_int cols / 2\<rfloor>"
  let ?radius1 = "(lg_radius (cols, rows))[?ci := (lg_radius (cols, rows) ! ?ci)[?cj := Fin 1]]"
  let ?ang = "lg_angular (fst (lg_meshgrid (cols, rows))) (snd (lg_meshgrid (cols, rows)))
                 theta0 sigma_theta0"
  have ci: "?ci < nat rows" and cj: "?cj < nat cols"
    using centre_index [OF assms(2)] centre_index [OF assms(1)] by simp_all
  have sh0: "has_shape (nat rows) (nat cols) (lg_radius (cols, rows))"
    by (rule has_shape_lg_radius)
  have sh1: "has_shape (nat rows) (nat cols) ?radius1"
    using has_shape_update [OF sh0 ci cj] .
  from get_log_gabor_kernel_pos [OF assms(1,2), of 0 theta0 sigma_over_f sigma_theta0]
  obtain lp g where g: "get_log_gabor_kernel (cols, rows) 0 theta0 sigma_over_f sigma_theta0 = Inr g"
    and sh: "has_shape (nat rows) (nat cols) g"
    and cells: "\<And>i j. i < nat rows \<Longrightarrow> j < nat cols \<Longrightarrow> \<exists>l. lp ! i ! j = Fin l \<and>
            g ! i ! j = np_mul (np_mul
              (if i = ?ci \<and> j = ?cj then Fin 0 else lg_radial ?radius1 0 sigma_over_f ! i ! j)
              (?ang ! i ! j)) (Fin l)"
    by blast
  have "g ! i ! j = Fin 0" if ij: "i < nat rows" "j < nat cols" for i j
  proof -
    from cells [OF ij] obtain l where cell: "g ! i ! j = np_mul (np_mul
              (if i = ?ci \<and> j = ?cj then Fin 0 else lg_radial ?radius1 0 sigma_over_f ! i ! j)
              (?ang ! i ! j)) (Fin l)"
      by blast
    have a: "?ang ! i ! j = Fin (exp (- (angular_distance
                    (arange_coord cols (int j) / real_of_int (min cols rows))
                    (arange_coord rows (int i) / real_of_int (min cols rows)) theta0)\<^sup>2
                  / (2 * sigma_theta0 ^ 2)))"
      unfolding lg_angular_nth [OF assms(1,2) ij] using assms(4) by simp
    have r: "lg_radial ?radius1 0 sigma_over_f ! i ! j = Fin 0" if "\<not> (i = ?ci \<and> j = ?cj)"
    proof -
      have "?radius1 ! i ! j = lg_radius (cols, rows) ! i ! j"
        using update_nth [OF sh0 ci cj ij] that by simp
      moreover from that have "\<not> (cols = 2 * int j \<and> rows = 2 * int i)"
        by auto
      then have "lg_radius (cols, rows) ! i ! j \<noteq> Fin 0"
        using lg_radius_zero_iff [OF assms(1,2) ij] by simp
      ultimately obtain x where x: "?radius1 ! i ! j = Fin x" "0 < x"
        using lg_radius_nth [OF assms(1,2) ij]
        by (metis npfloat.inject real_sqrt_ge_zero order_le_less sum_power2_ge_zero)
      show ?thesis
        unfolding lg_radial_nth [OF sh1 ij] x(1) lg_radial_denominator_pos [OF assms(3)]
        using x(2) by (simp add: np_power_PInf)
    qed
    show ?thesis unfolding cell a using r by auto
  qed
  then have "g = replicate (nat rows) (replicate (nat cols) (Fin 0))"
    using has_shape_replicate [OF sh] by blast
  with g show ?thesis by simp
qed

text \<open>
  Claim C1 as stated says that a call with \<open>f0 \<le> 0\<close>, \<open>sigma_over_f \<le> 0\<close> or
  \<open>sigma_theta0 \<le> 0\<close> fails. On the size \<open>(4, 4)\<close> the call with \<open>f0 = 0\<close> returns the
  grid of zeros, and the calls with \<open>sigma_over_f = -1\<close> and with \<open>sigma_theta0 = 0\<close>
  return a grid too.
\<close>

theorem get_log_gabor_kernel_accepts_nonpositive:
  "get_log_gabor_kernel (4, 4) 0 0 0.75 1 = Inr (replicate 4 (replicate 4 (Fin 0)))
   \<and> \<not> isl (get_log_gabor_kernel (4, 4) 0.1 0 (- 1) 1)
   \<and> \<not> isl (get_log_gabor_kernel (4, 4) 0.1 0 0.75 0)"
proof -
  have "\<not> isl (get_log_gabor_kernel (4, 4) f0 theta0 s st)" for f0 theta0 s st
    using get_log_gabor_kernel_pos [of 4 4 f0 theta0 s st] by auto
  moreover have "get_log_gabor_kernel (4, 4) 0 0 0.75 1 = Inr (replicate 4 (replicate 4 (Fin 0)))"
    using get_log_gabor_kernel_f0_zero [of 4 4 "0.75" 1 0] by simp
  ultimately show ?thesis by blast
qed

text \<open>
  Claim C5. For positive dimensions and positive \<open>f0\<close>, \<open>sigma_over_f\<close> and
  \<open>sigma_theta0\<close>, the grid returned by \<open>get_log_gabor_kernel\<close> holds exactly \<open>0.0\<close> at
  the centre cell, row \<open>\<lfloor>rows / 2\<rfloor>\<close> and column \<open>\<lfloor>cols / 2\<rfloor>\<close>.
\<close>

theorem get_log_gabor_kernel_centre_zero:
  assumes "0 < cols" "0 < rows" "0 < f0" "0 < sigma_over_f" "0 < sigma_theta0"
  shows "\<exists>g. get_log_gabor_kernel (cols, rows) f0 theta0 sigma_over_f sigma_theta0 = Inr g
           \<and> g ! nat \<lfloor>real_of_int rows / 2\<rfloor> ! nat \<lfloor>real_of_int cols / 2\<rfloor> = Fin 0"
proof -
  let ?ci = "nat \<lfloor>real_of_int rows / 2\<rfloor>" and ?cj = "nat \<lfloor>real_of_int cols / 2\<rfloor>"
  have ci: "?ci < nat rows" and cj: "?cj < nat cols"
    using centre_index [OF assms(2)] centre_index [OF assms(1)] by simp_all
  from get_log_gabor_kernel_pos [OF assms(1,2), of f0 theta0 sigma_over_f sigma_theta0]
  obtain lp g where g: "get_log_gabor_kernel (cols, rows) f0 theta0 sigma_over_f sigma_theta0 = Inr g"
    and cells: "\<And>i j. i < nat rows \<Longrightarrow> j < nat cols \<Longrightarrow> \<exists>l. lp ! i ! j = Fin l \<and>
            g ! i ! j = np_mul (np_mul
              (if i = ?ci \<and> j = ?cj then Fin 0
               else lg_radial ((lg_radius (cols, rows))[?ci := (lg_radius (cols, rows) ! ?ci)[?cj := Fin 1]])
                      f0 sigma_over_f ! i ! j)
              (lg_angular (fst (lg_meshgrid (cols, rows))) (snd (lg_meshgrid (cols, rows)))
                 theta0 sigma_theta0 ! i ! j))
              (Fin l)"
    by blast
  from cells [OF ci cj]
  obtain l where cell: "g ! ?ci ! ?cj = np_mul (np_mul (Fin 0)
              (lg_angular (fst (lg_meshgrid (cols, rows))) (snd (lg_meshgrid (cols, rows)))
                 theta0 sigma_theta0 ! ?ci ! ?cj)) (Fin l)"
    by auto
  have "sigma_theta0 \<noteq> 0" using assms(5) by simp
  then have "g ! ?ci ! ?cj = Fin 0"
    unfolding cell lg_angular_nth [OF assms(1,2) ci cj] angular_cell_finite by simp
  with g show ?thesis by blast
qed

theorem get_log_gabor_kernel_centre_zero_witness:
  "(\<exists>g. get_log_gabor_kernel (4, 4) 0.1 0 0.75 1 = Inr g \<and> g ! 2 ! 2 = Fin 0)
   \<and> (\<exists>g. get_log_gabor_kernel (5, 3) 0.1 (pi / 4) 0.75 1 = Inr g \<and> g ! 1 ! 2 = Fin 0)"
proof -
  have "nat \<lfloor>real_of_int 4 / 2\<rfloor> = 2" "nat \<lfloor>real_of_int 5 / 2\<rfloor> = 2"
    "nat \<lfloor>real_of_int 3 / 2\<rfloor> = 1"
    by (simp_all add: floor_half)
  with get_log_gabor_kernel_centre_zero [of 4 4 "0.1" "0.75" 1 0]
    get_log_gabor_kernel_centre_zero [of 5 3 "0.1" "0.75" 1 "pi / 4"]
  show ?thesis by simp
qed

lemma lg_radial_denominator_one: "lg_radial_denominator 1 = Fin 0"
  by (simp add: lg_radial_denominator_def np_power_Fin)

lemma radial_cell_zero_denominator:
  "np_exp (np_div (np_neg (np_power u 2)) (Fin 0)) = Fin 0
   \<or> np_exp (np_div (np_neg (np_power u 2)) (Fin 0)) = NaN"
  by (cases u) (simp_all add: np_power_Fin eval_nat_numeral)

lemma product_zero_or_nan:
  assumes "r = Fin 0 \<or> r = NaN" "fin_or_nan a"
  shows "np_mul (np_mul r a) (Fin l) = Fin 0 \<or> np_mul (np_mul r a) (Fin l) = NaN"
  using assms by (cases a) (auto simp: fin_or_nan_def)

text \<open>
  Claim C10. For \<open>sigma_over_f = 1\<close> the radial denominator \<open>2 (ln sigma_over_f)\<^sup>2\<close> is 0,
  so the radial component divides by zero. The function checks nothing, raises nothing
  and returns a grid of the requested dimensions; every cell of that grid is \<open>0.0\<close> or
  NaN, not a value of the specification's radial formula.
\<close>

theorem get_log_gabor_kernel_sigma_one:
  "lg_radial_denominator 1 = Fin 0
   \<and> (0 < cols \<and> 0 < rows \<longrightarrow>
        (\<exists>g. get_log_gabor_kernel (cols, rows) f0 theta0 1 sigma_theta0 = Inr g
            \<and> length g = nat rows
            \<and> (\<forall>row\<in>set g. length row = nat cols \<and> (\<forall>v\<in>set row. v = Fin 0 \<or> v = NaN))))"
proof (intro conjI impI)
  show "lg_radial_denominator 1 = Fin 0" by (rule lg_radial_denominator_one)
next
  assume pos: "0 < cols \<and> 0 < rows"
  let ?ci = "nat \<lfloor>real_of_int rows / 2\<rfloor>" and ?cj = "nat \<lfloor>real_of_int cols / 2\<rfloor>"
  let ?radius1 = "(lg_radius (cols, rows))[?ci := (lg_radius (cols, rows) ! ?ci)[?cj := Fin 1]]"
  let ?ang = "lg_angular (fst (lg_meshgrid (cols, rows))) (snd (lg_meshgrid (cols, rows)))
                 theta0 sigma_theta0"
  have ci: "?ci < nat rows" and cj: "?cj < nat cols"
    using centre_index [of rows] centre_index [of cols] pos by simp_all
  have sh1: "has_shape (nat rows) (nat cols) ?radius1"
    using has_shape_update [OF has_shape_lg_radius ci cj] .
  from pos get_log_gabor_kernel_pos [of cols rows f0 theta0 1 sigma_theta0]
  obtain lp g where g: "get_log_gabor_kernel (cols, rows) f0 theta0 1 sigma_theta0 = Inr g"
    and sh: "has_shape (nat rows) (nat cols) g"
    and cells: "\<And>i j. i < nat rows \<Longrightarrow> j < nat cols \<Longrightarrow> \<exists>l. lp ! i ! j = Fin l \<and>
            g ! i ! j = np_mul (np_mul
              (if i = ?ci \<and> j = ?cj then Fin 0 else lg_radial ?radius1 f0 1 ! i ! j)
              (?ang ! i ! j)) (Fin l)"
    by blast
  have "g ! i ! j = Fin 0 \<or> g ! i ! j = NaN" if ij: "i < nat rows" "j < nat cols" for i j
  proof -
    from cells [OF ij] obtain l where cell: "g ! i ! j = np_mul (np_mul
              (if i = ?ci \<and> j = ?cj then Fin 0 else lg_radial ?radius1 f0 1 ! i ! j)
              (?ang ! i ! j)) (Fin l)"
      by blast
    have r: "(if i = ?ci \<and> j = ?cj then Fin 0 else lg_radial ?radius1 f0 1 ! i ! j) = Fin 0
        \<or> (if i = ?ci \<and> j = ?cj then Fin 0 else lg_radial ?radius1 f0 1 ! i ! j) = NaN"
      using radial_cell_zero_denominator
      by (simp add: lg_radial_nth [OF sh1 ij] lg_radial_denominator_one del: np_div.simps)
    have a: "fin_or_nan (?ang ! i ! j)"
      using pos ij by (simp only: lg_angular_nth angular_cell_fin_or_nan)
    show ?thesis unfolding cell using r a by (rule product_zero_or_nan)
  qed
  then have "\<forall>row\<in>set g. length row = nat cols \<and> (\<forall>v\<in>set row. v = Fin 0 \<or> v = NaN)"
    using has_shape_cells [OF sh, of "\<lambda>v. v = Fin 0 \<or> v = NaN"] by blast
  moreover have "length g = nat rows" using sh by (simp add: has_shape_def)
  ultimately show "\<exists>g. get_log_gabor_kernel (cols, rows) f0 theta0 1 sigma_theta0 = Inr g
            \<and> length g = nat rows
            \<and> (\<forall>row\<in>set g. length row = nat cols \<and> (\<forall>v\<in>set row. v = Fin 0 \<or> v = NaN))"
    using g by blast
qed

theorem get_log_gabor_kernel_sigma_one_witness:
  "lg_radial_denominator 1 = Fin 0
   \<and> (\<exists>g. get_log_gabor_kernel (4, 4) 0.1 0 1 1 = Inr g \<and> length g = 4)"
  using get_log_gabor_kernel_sigma_one [of 4 4 "0.1" 0 1]
  by auto

section \<open>Properties of \<^verbatim>\<open>get_gabor_filterbank\<close>\<close>

lemma for_each_append:
  assumes "\<And>i s. i \<in> set is \<Longrightarrow> body i s = Inr (s @ [f i])"
  shows "for_each is body s = Inr (s @ map f is)"
  using assms by (induction "is" arbitrary: s) simp_all

lemma for_each_append_lists:
  assumes "\<And>i s. i \<in> set is \<Longrightarrow> body i s = Inr (s @ f i)"
  shows "for_each is body s = Inr (s @ concat (map f is))"
  using assms by (induction "is" arbitrary: s) simp_all

lemma concat_grid_length:
  "length (concat (map (\<lambda>s. map (f s) [0..<n]) [0..<m])) = m * n"
  by (induction m) simp_all

lemma concat_grid_nth:
  "s < m \<Longrightarrow> k < n \<Longrightarrow> concat (map (\<lambda>s. map (f s) [0..<n]) [0..<m]) ! (s * n + k) = f s k"
proof (induction m)
  case 0
  then show ?case by simp
next
  case (Suc m)
  show ?case
  proof (cases "s < m")
    case True
    then have "s * n + k < m * n"
      using Suc.prems(2)
      by (metis add.commute add_less_cancel_left less_le_trans mult_Suc mult_le_mono1 Suc_leI)
    then show ?thesis using Suc.IH [OF True Suc.prems(2)]
      by (simp add: nth_append concat_grid_length)
  next
    case False
    then have "s = m" using Suc.prems(1) by simp
    then show ?thesis using Suc.prems(2) by (simp add: nth_append concat_grid_length)
  qed
qed

lemma filterbank_step_ok:
  assumes "bank_kernel ksize n_orientations min_sigma scale_factor gamma psi scale orientation = Inr f"
    and "n_orientations \<noteq> 0"
  shows "filterbank_step ksize n_orientations min_sigma scale_factor gamma psi scale orientation filters
           = Inr (filters @ [f])"
  using assms by (simp add: filterbank_step_def bank_kernel_def py_truediv_def Let_def)

lemma bank_kernel_ok:
  assumes "0 \<le> width" "0 \<le> height" "0 < min_sigma" "scale_factor \<noteq> 0" "gamma \<noteq> 0" "0 \<le> scale"
  shows "\<exists>f. bank_kernel (width, height) n_orientations min_sigma scale_factor gamma psi
               scale orientation = Inr f"
proof -
  have "min_sigma + real_of_int scale \<noteq> 0" using assms(3,6) by simp
  moreover from this have "(min_sigma + real_of_int scale) * scale_factor \<noteq> 0"
    using assms(4) by simp
  ultimately show ?thesis
    unfolding bank_kernel_def
    using get_gabor_kernel_grid [OF assms(1,2) _ assms(5)] by blast
qed

text \<open>
  The bank fails fast: when the first kernel call raises, the bank raises with it.
\<close>

lemma get_gabor_filterbank_first_call_raises:
  assumes "1 \<le> n_scales" "1 \<le> n_orientations"
    and "bank_kernel ksize n_orientations min_sigma scale_factor gamma psi 0 0 = Inl e"
  shows "get_gabor_filterbank ksize n_scales n_orientations min_sigma scale_factor gamma psi
           = Inl e"
proof -
  have S: "[0..<nat n_scales] = 0 # [1..<nat n_scales]"
    and O: "[0..<nat n_orientations] = 0 # [1..<nat n_orientations]"
    using assms(1,2) by (simp_all add: upt_conv_Cons)
  have "filterbank_step ksize n_orientations min_sigma scale_factor gamma psi 0 0 [] = Inl e"
    using assms(2,3) by (simp add: filterbank_step_def bank_kernel_def py_truediv_def Let_def)
  then show ?thesis
    by (simp add: get_gabor_filterbank_def py_range_def S O)
qed

text \<open>
  Claim C7. For \<open>n_scales \<ge> 1\<close> and \<open>n_orientations \<ge> 1\<close>, and parameters on which the
  kernel calls return (a size without a negative dimension, \<open>min_sigma > 0\<close>,
  \<open>scale_factor \<noteq> 0\<close> and \<open>gamma \<noteq> 0\<close>), \<open>get_gabor_filterbank\<close> returns exactly
  \<open>n_scales * n_orientations\<close> kernels, and the one at index
  \<open>scale * n_orientations + orientation\<close> is the result of \<open>get_gabor_kernel\<close> with
  \<open>sigma = min_sigma + scale\<close>, \<open>lambd = sigma * scale_factor\<close>,
  \<open>theta = 2 \<pi> (orientation / n_orientations)\<close> and the shared \<open>gamma\<close> and \<open>psi\<close>:
  the order is scale major, orientation minor.
\<close>

theorem get_gabor_filterbank_order:
  assumes "1 \<le> n_scales" "1 \<le> n_orientations"
    and "0 \<le> width" "0 \<le> height" "0 < min_sigma" "scale_factor \<noteq> 0" "gamma \<noteq> 0"
  shows "\<exists>filters.
           get_gabor_filterbank (width, height) n_scales n_orientations min_sigma scale_factor
             gamma psi = Inr filters
         \<and> int (length filters) = n_scales * n_orientations
         \<and> (\<forall>scale orientation.
               0 \<le> scale \<and> scale < n_scales \<and> 0 \<le> orientation \<and> orientation < n_orientations \<longrightarrow>
               get_gabor_kernel (width, height) (min_sigma + real_of_int scale)
                 (2 * pi * (real_of_int orientation / real_of_int n_orientations))
                 ((min_sigma + real_of_int scale) * scale_factor) gamma psi
               = Inr (filters ! nat (scale * n_orientations + orientation)))"
proof -
  let ?S = "nat n_scales" and ?O = "nat n_orientations"
  let ?bk = "bank_kernel (width, height) n_orientations min_sigma scale_factor gamma psi"
  let ?step = "filterbank_step (width, height) n_orientations min_sigma scale_factor gamma psi"
  define K where "K s k = projr (?bk (int s) (int k))" for s k
  have K: "?bk (int s) (int k) = Inr (K s k)" for s k
    using bank_kernel_ok [OF assms(3-7), of "int s" n_orientations psi "int k"]
    by (auto simp: K_def)
  have O: "n_orientations \<noteq> 0" using assms(2) by simp
  have inner: "for_each (py_range n_orientations) (?step (int s)) filters =
      Inr (filters @ map (K s) [0..<?O])" for s filters
  proof -
    have "for_each (map int [0..<?O]) (?step (int s)) filters =
        Inr (filters @ map (\<lambda>i. K s (nat i)) (map int [0..<?O]))"
    proof (rule for_each_append)
      fix i fs assume "i \<in> set (map int [0..<?O])"
      then obtain k where "i = int k" by auto
      then show "?step (int s) i fs = Inr (fs @ [K s (nat i)])"
        using filterbank_step_ok [OF K O] by simp
    qed
    then show ?thesis by (simp add: py_range_def comp_def)
  qed
  have "for_each (map int [0..<?S]) (\<lambda>scale. for_each (py_range n_orientations) (?step scale)) [] =
      Inr ([] @ concat (map (\<lambda>scale. map (K (nat scale)) [0..<?O]) (map int [0..<?S])))"
  proof (rule for_each_append_lists)
    fix i fs assume "i \<in> set (map int [0..<?S])"
    then obtain s where "i = int s" by auto
    then show "for_each (py_range n_orientations) (?step i) fs = Inr (fs @ map (K (nat i)) [0..<?O])"
      using inner by simp
  qed
  then have bank: "get_gabor_filterbank (width, height) n_scales n_orientations min_sigma
      scale_factor gamma psi = Inr (concat (map (\<lambda>s. map (K s) [0..<?O]) [0..<?S]))"
    by (simp add: get_gabor_filterbank_def py_range_def comp_def)
  let ?filters = "concat (map (\<lambda>s. map (K s) [0..<?O]) [0..<?S])"
  have len: "int (length ?filters) = n_scales * n_orientations"
    using assms(1,2) by (simp add: concat_grid_length nat_mult_distrib)
  have elem: "get_gabor_kernel (width, height) (min_sigma + real_of_int scale)
                 (2 * pi * (real_of_int orientation / real_of_int n_orientations))
                 ((min_sigma + real_of_int scale) * scale_factor) gamma psi
               = Inr (?filters ! nat (scale * n_orientations + orientation))"
    if "0 \<le> scale \<and> scale < n_scales \<and> 0 \<le> orientation \<and> orientation < n_orientations"
    for scale orientation
  proof -
    have idx: "nat (scale * n_orientations + orientation) = nat scale * ?O + nat orientation"
      using that assms(2) by (simp add: nat_add_distrib nat_mult_distrib)
    have "nat scale < ?S" "nat orientation < ?O" using that by simp_all
    then have "?filters ! (nat scale * ?O + nat orientation) = K (nat scale) (nat orientation)"
      by (rule concat_grid_nth)
    moreover have "?bk scale orientation = Inr (K (nat scale) (nat orientation))"
      using K [of "nat scale" "nat orientation"] that by simp
    ultimately show ?thesis by (simp add: idx bank_kernel_def)
  qed
  show ?thesis
    by (intro exI [of _ ?filters] conjI allI impI; (rule bank len elem)?) 
qed

theorem get_gabor_filterbank_order_witness:
  "\<exists>filters. get_gabor_filterbank (5, 5) 2 3 1 3 1 (pi / 2) = Inr filters
     \<and> length filters = 6
     \<and> get_gabor_kernel (5, 5) 2 (2 * pi * (2 / 3)) 6 1 (pi / 2) = Inr (filters ! 5)
     \<and> get_gabor_kernel (5, 5) 1 (2 * pi * (1 / 3)) 3 1 (pi / 2) = Inr (filters ! 1)"
proof -
  from get_gabor_filterbank_order [of 2 3 5 5 1 3 1 "pi / 2"]
  obtain filters where f: "get_gabor_filterbank (5, 5) 2 3 1 3 1 (pi / 2) = Inr filters"
    "int (length filters) = 2 * 3"
    and e: "\<And>scale orientation.
               0 \<le> scale \<and> scale < 2 \<and> 0 \<le> orientation \<and> orientation < 3 \<Longrightarrow>
               get_gabor_kernel (5, 5) (1 + real_of_int scale)
                 (2 * pi * (real_of_int orientation / real_of_int 3))
                 ((1 + real_of_int scale) * 3) 1 (pi / 2)
               = Inr (filters ! nat (scale * 3 + orientation))"
    by auto
  from e [of 1 2] e [of 0 1] f show ?thesis by auto
qed

end
